theory Spec2Isabelle
  imports Main "HOL-Library.Word"
begin

unbundle bit_operations_syntax

section \<open>FROST over secp256k1: a shallow embedding of the TypeScript sources\<close>

text \<open>
  The sources work on JavaScript \<^verbatim>\<open>bigint\<close> values (unbounded integers, modelled as
  \<^typ>\<open>int\<close>), on \<^verbatim>\<open>number\<close> indexes (always integers in this code base: the
  constructor of \<^verbatim>\<open>Participant\<close> checks it; modelled as \<^typ>\<open>int\<close>) and on byte
  buffers (modelled as lists of 8-bit words). Every \<^verbatim>\<open>throw\<close> of the source is a value
  \<open>Inl e\<close> of the result type.
\<close>

subsection \<open>Errors\<close>

datatype error =
    DuplicateIndexes          \<comment> \<open>"Participant indexes must be unique."\<close>
  | NoModularInverse          \<comment> \<open>"Modular inverse does not exist"\<close>
  | SerializeInfinity         \<comment> \<open>"Cannot serialize the point at infinity."\<close>
  | InvalidSecInput           \<comment> \<open>"Invalid hex input or unable to compute point from x-coordinate."\<close>
  | IndexMustStartFromOne     \<comment> \<open>"Participant index must start from 1."\<close>
  | IndexOutOfRange int       \<comment> \<open>"Index ... is out of range for nonce commitments."\<close>
  | ParticipantIndexOutOfRange int
                              \<comment> \<open>"Participant index ... is out of range."\<close>
  | UInt8OutOfRange           \<comment> \<open>the RangeError of \<^verbatim>\<open>Buffer.writeUInt8\<close>\<close>
  | InfiniteGroupCommitment   \<comment> \<open>"Resulting group commitment is the point at infinity"\<close>
  | InvalidPublicKey          \<comment> \<open>"Invalid public key."\<close>
  | TweaksNotPaired           \<comment> \<open>"Both bip32Tweak and taprootTweak must be provided together, or neither."\<close>
  | SharesNotInitialized      \<comment> \<open>"Participant's shares have not been initialized."\<close>
  | AggregateShareNotInitialized
                              \<comment> \<open>"Participant's aggregate share has not been initialized." and
                                  "Aggregate share has not been initialized."\<close>
  | ShareNotLost              \<comment> \<open>"Participant's share has not been lost"\<close>
  | WrongShareCount           \<comment> \<open>"Expected exactly ... shares, received ..."\<close>
  | RepairSharesNotInitialized
                              \<comment> \<open>"Repair shares have not been initialized." and
                                  "Participant's repair shares have not been initialized."\<close>
  | NotARepairParticipant     \<comment> \<open>"Participant index does not match the initial set."\<close>
  | SharesCountMismatch       \<comment> \<open>"The number of public verification shares must match the number
                                  of participant indexes."\<close>
  | CoefficientsNotInitialized
                              \<comment> \<open>"Polynomial coefficients must be initialized."\<close>
  | UndefinedOperand          \<comment> \<open>the TypeError of JavaScript when an array element that does
                                  not exist is used as a bigint or as an object\<close>

definition bindE :: "error + 'a \<Rightarrow> ('a \<Rightarrow> error + 'b) \<Rightarrow> error + 'b" where
  "bindE m f = (case m of Inl e \<Rightarrow> Inl e | Inr v \<Rightarrow> f v)"

fun mapE :: "('a \<Rightarrow> error + 'b) \<Rightarrow> 'a list \<Rightarrow> error + 'b list" where
  "mapE f [] = Inr []"
| "mapE f (x # xs) = bindE (f x) (\<lambda>y. bindE (mapE f xs) (\<lambda>ys. Inr (y # ys)))"

subsection \<open>Constants (constants.ts)\<close>

definition P :: int where
  "P = 2 ^ 256 - 2 ^ 32 - 977"

definition Q :: int where
  "Q = 0xFFFFFFFFFFFFFFFFFFFFFFFFFFFFFFFEBAAEDCE6AF48A03BBFD25E8CD0364141"

definition GX :: int where
  "GX = 0x79BE667EF9DCBBAC55A06295CE870B07029BFCDB2DCE28D959F2815B16F81798"

definition GY :: int where
  "GY = 0x483ADA7726A3C4655DA4FBFC0E1108A8FD17B448A68554199C47D08FFB10D4B8"

subsection \<open>bigint arithmetic\<close>

text \<open>
  The \<^verbatim>\<open>%\<close> of JavaScript truncates: the remainder has the sign of the dividend.
  The \<^verbatim>\<open>/\<close> on bigints truncates too. Every divisor in the sources is \<open>P\<close>,
  \<open>Q\<close>, \<open>2\<close> or the nonzero remainder of a Euclidean loop, so the RangeError of a
  zero divisor is not modelled.
\<close>

definition rem_js :: "int \<Rightarrow> int \<Rightarrow> int" where
  "rem_js a b = sgn a * (\<bar>a\<bar> mod \<bar>b\<bar>)"

definition div_js :: "int \<Rightarrow> int \<Rightarrow> int" where
  "div_js a b = sgn a * sgn b * (\<bar>a\<bar> div \<bar>b\<bar>)"

text \<open>\<^verbatim>\<open>function mod(a, b) { return ((a % b) + b) % b; }\<close> of point.ts.\<close>

definition mod_js :: "int \<Rightarrow> int \<Rightarrow> int" where
  "mod_js a b = rem_js (rem_js a b + b) b"

text \<open>
  \<^verbatim>\<open>pow(base, exponent, modulus)\<close> of participant.ts, which is also
  \<^verbatim>\<open>Matrix.modPow\<close> and \<^verbatim>\<open>Point.modPow\<close>: square and multiply from the
  least significant bit, with the truncating remainder.
\<close>

function pow_loop :: "int \<Rightarrow> int \<Rightarrow> int \<Rightarrow> int \<Rightarrow> int" where
  "pow_loop result base exponent modulus =
     (if exponent > 0
      then pow_loop (if rem_js exponent 2 = 1 then rem_js (result * base) modulus else result)
                    (rem_js (base * base) modulus) (exponent div 2) modulus
      else result)"
  by pat_completeness auto
termination
  by (relation "measure (\<lambda>(r, b, e, m). nat e)") auto

declare pow_loop.simps [simp del]

definition pow :: "int \<Rightarrow> int \<Rightarrow> int \<Rightarrow> int" where
  "pow base exponent modulus =
     (if modulus = 1 then 0 else pow_loop 1 (rem_js base modulus) exponent modulus)"

subsection \<open>Lagrange coefficients (participant.ts)\<close>

text \<open>
  \<^verbatim>\<open>_lagrangeCoefficient(participantIndexes, x = 0n, participantIndex?)\<close>. The first
  argument of the model is \<^verbatim>\<open>this.index\<close>, the default of \<^verbatim>\<open>participantIndex\<close>.
\<close>

fun lagrange_loop :: "int \<Rightarrow> int \<Rightarrow> int list \<Rightarrow> int \<Rightarrow> int \<Rightarrow> int \<times> int" where
  "lagrange_loop x i [] numerator denominator = (numerator, denominator)"
| "lagrange_loop x i (index # rest) numerator denominator =
     (if index = i then lagrange_loop x i rest numerator denominator
      else lagrange_loop x i rest (numerator * (x - index)) (denominator * (i - index)))"

definition lagrangeCoefficient :: "int \<Rightarrow> int list \<Rightarrow> int \<Rightarrow> int option \<Rightarrow> error + int" where
  "lagrangeCoefficient this_index participantIndexes x participantIndex =
     (if card (set participantIndexes) \<noteq> length participantIndexes then Inl DuplicateIndexes
      else
        let i = (case participantIndex of None \<Rightarrow> this_index | Some k \<Rightarrow> k);
            (numerator, denominator) = lagrange_loop x i participantIndexes 1 1
        in Inr (rem_js (numerator * pow denominator (Q - 2) Q) Q))"

subsection \<open>Curve points (point.ts)\<close>

text \<open>
  \<^verbatim>\<open>class Point { x: bigint | null; y: bigint | null; }\<close>. The point at infinity is
  \<^verbatim>\<open>new Point()\<close>, both fields \<^verbatim>\<open>null\<close>.
\<close>

datatype point = Point (px: "int option") (py: "int option")

definition infinity :: point where
  "infinity = Point None None"

definition G :: point where
  "G = Point (Some GX) (Some GY)"

definition isInfinity :: "point \<Rightarrow> bool" where
  "isInfinity p = (px p = None \<or> py p = None)"

definition equals :: "point \<Rightarrow> point \<Rightarrow> bool" where
  "equals p other = (px p = px other \<and> py p = py other)"

definition negate :: "point \<Rightarrow> point" where
  "negate p = (case (px p, py p) of
                 (Some x, Some y) \<Rightarrow> Point (Some x) (Some (P - y))
               | _ \<Rightarrow> p)"

text \<open>
  \<^verbatim>\<open>modInverse(a, m)\<close> of \<^verbatim>\<open>Point\<close>: the extended Euclidean loop on
  \<open>(oldR, r)\<close> and \<open>(oldS, s)\<close>; it throws when the final \<open>oldR\<close> exceeds 1.
\<close>

function modInverse_loop :: "int \<Rightarrow> int \<Rightarrow> int \<Rightarrow> int \<Rightarrow> int \<times> int" where
  "modInverse_loop oldR r oldS s =
     (if r \<noteq> 0
      then let quotient = div_js oldR r
           in modInverse_loop r (oldR - quotient * r) s (oldS - quotient * s)
      else (oldR, oldS))"
  by pat_completeness auto
termination
proof (relation "measure (\<lambda>(oldR, r, oldS, s). nat \<bar>r\<bar>)")
  show "wf (measure (\<lambda>(oldR, r, oldS, s). nat \<bar>r\<bar>))" by simp
next
  fix oldR r oldS s :: int and quotient :: int
  assume r: "r \<noteq> 0" and q: "quotient = div_js oldR r"
  have "oldR - div_js oldR r * r = rem_js oldR r"
  proof -
    have "\<bar>oldR\<bar> = \<bar>r\<bar> * (\<bar>oldR\<bar> div \<bar>r\<bar>) + \<bar>oldR\<bar> mod \<bar>r\<bar>" by simp
    then have "sgn oldR * \<bar>oldR\<bar> =
        sgn oldR * (\<bar>r\<bar> * (\<bar>oldR\<bar> div \<bar>r\<bar>)) + sgn oldR * (\<bar>oldR\<bar> mod \<bar>r\<bar>)"
      by (metis distrib_left)
    moreover have "sgn oldR * \<bar>oldR\<bar> = oldR" by (simp add: sgn_if)
    moreover have "sgn oldR * (\<bar>r\<bar> * (\<bar>oldR\<bar> div \<bar>r\<bar>)) = div_js oldR r * r"
      by (simp add: div_js_def sgn_if)
    ultimately show ?thesis by (simp add: rem_js_def)
  qed
  moreover have "\<bar>rem_js oldR r\<bar> < \<bar>r\<bar>"
    using r by (simp add: rem_js_def abs_mult sgn_if)
  ultimately show "((r, oldR - quotient * r, s, oldS - quotient * s), (oldR, r, oldS, s))
      \<in> measure (\<lambda>(oldR, r, oldS, s). nat \<bar>r\<bar>)"
    using q by simp
qed

declare modInverse_loop.simps [simp del]

definition modInverse :: "int \<Rightarrow> int \<Rightarrow> error + int" where
  "modInverse a m =
     (let (oldR, oldS) = modInverse_loop (mod_js a m) m 1 0
      in if oldR > 1 then Inl NoModularInverse else Inr (mod_js oldS m))"

text \<open>\<^verbatim>\<open>double()\<close>: the tangent rule; infinity for infinity and for \<open>y = 0\<close>.\<close>

definition double :: "point \<Rightarrow> error + point" where
  "double p =
     (case (px p, py p) of
        (Some x, Some y) \<Rightarrow>
          if y = 0 then Inr infinity
          else bindE (modInverse (2 * y) P) (\<lambda>inv.
            let s = mod_js (3 * x * x * inv) P;
                sumX = mod_js (s * s - 2 * x) P;
                sumY = mod_js (s * (x - sumX) - y) P
            in Inr (Point (Some sumX) (Some sumY)))
      | _ \<Rightarrow> Inr infinity)"

text \<open>\<^verbatim>\<open>add(other)\<close>, with the branches in the order of the source.\<close>

definition add :: "point \<Rightarrow> point \<Rightarrow> error + point" where
  "add p other =
     (if equals p other then double p
      else if isInfinity p then Inr (Point (px other) (py other))
      else if isInfinity other then Inr (Point (px p) (py p))
      else if px p = px other \<and> py p \<noteq> py other then Inr infinity
      else
        let x1 = the (px p); y1 = the (py p); x2 = the (px other); y2 = the (py other)
        in bindE (modInverse (x2 - x1) P) (\<lambda>inv.
             let s = mod_js ((y2 - y1) * inv) P;
                 sumX = mod_js (s * s - x1 - x2) P;
                 sumY = mod_js (s * (x1 - sumX) - y1) P
             in Inr (Point (Some sumX) (Some sumY))))"

definition subtract :: "point \<Rightarrow> point \<Rightarrow> error + point" where
  "subtract p other = add p (negate other)"

text \<open>
  \<^verbatim>\<open>multiply(scalar)\<close>: the scalar is reduced with \<^verbatim>\<open>mod(scalar, Q)\<close>, then the loop
  \<^verbatim>\<open>while (i <= scalar) { if (i & scalar) r = r.add(p); p = p.double(); i <<= 1n; }\<close>
  runs from \<open>i = 1\<close>. The loop counter is always a power of two; the model keeps its
  exponent \<open>k\<close>, so \<open>i = 2 ^ k\<close>.
\<close>

function multiply_loop :: "point \<Rightarrow> point \<Rightarrow> nat \<Rightarrow> int \<Rightarrow> error + point" where
  "multiply_loop p r k scalar =
     (if 2 ^ k \<le> scalar
      then bindE (if and (2 ^ k) scalar \<noteq> 0 then add r p else Inr r) (\<lambda>r'.
           bindE (double p) (\<lambda>p'. multiply_loop p' r' (Suc k) scalar))
      else Inr r)"
  by pat_completeness auto
termination
proof (relation "measure (\<lambda>(p, r, k, scalar). nat (scalar + 1 - 2 ^ k))")
  show "wf (measure (\<lambda>(p, r, k, scalar). nat (scalar + 1 - 2 ^ k)))" by simp
next
  fix p r :: point and k :: nat and scalar :: int and r' p' :: point
  assume "(2::int) ^ k \<le> scalar"
  moreover have "(2::int) ^ k < 2 ^ Suc k" by simp
  ultimately show "((p', r', Suc k, scalar), (p, r, k, scalar))
      \<in> measure (\<lambda>(p, r, k, scalar). nat (scalar + 1 - 2 ^ k))"
    by simp
qed

declare multiply_loop.simps [simp del]

definition multiply :: "point \<Rightarrow> int \<Rightarrow> error + point" where
  "multiply p scalar = multiply_loop (Point (px p) (py p)) infinity 0 (mod_js scalar Q)"

subsection \<open>Bytes, hexadecimal strings and SHA-256\<close>

type_synonym byte = "8 word"

text \<open>
  \<^verbatim>\<open>BigInt("0x" + buffer.toString("hex"))\<close>: the bytes read as a big-endian number.
\<close>

definition be_to_int :: "byte list \<Rightarrow> int" where
  "be_to_int bs = foldl (\<lambda>acc b. acc * 256 + uint b) 0 bs"

text \<open>
  The 32 bytes written by the loop of \<^verbatim>\<open>secSerialize\<close>,
  \<^verbatim>\<open>for (i = 31; i >= 0; i--) { xBytes[i] = Number(x & 0xffn); x >>= 8n; }\<close>:
  the low 256 bits of \<open>x\<close>, most significant byte first.
\<close>

definition be32 :: "int \<Rightarrow> byte list" where
  "be32 x = map (\<lambda>i. word_of_int (drop_bit (8 * (31 - i)) x)) [0..<32]"

text \<open>\<^verbatim>\<open>bigint.toString(16)\<close>: lower-case digits, a minus sign for a negative number.\<close>

definition hexdigit :: "nat \<Rightarrow> char" where
  "hexdigit d = ''0123456789abcdef'' ! d"

function hex_of_nat :: "nat \<Rightarrow> string" where
  "hex_of_nat n = (if n < 16 then [hexdigit n] else hex_of_nat (n div 16) @ [hexdigit (n mod 16)])"
  by pat_completeness auto
termination
  by (relation "measure id") auto

declare hex_of_nat.simps [simp del]

definition toString16 :: "int \<Rightarrow> string" where
  "toString16 z = (if z < 0 then CHR ''-'' # hex_of_nat (nat (- z)) else hex_of_nat (nat z))"

definition padStart :: "string \<Rightarrow> nat \<Rightarrow> char \<Rightarrow> string" where
  "padStart s n c = replicate (n - length s) c @ s"

text \<open>
  Decoding of a hexadecimal string by Node's \<^verbatim>\<open>Buffer\<close>: pairs of digits are decoded
  from the left, and decoding stops at the first pair that is not two hexadecimal digits
  (a trailing single character is dropped).
\<close>

definition hexval :: "char \<Rightarrow> nat option" where
  "hexval c =
     (let n = of_char c :: nat in
      if 48 \<le> n \<and> n \<le> 57 then Some (n - 48)
      else if 97 \<le> n \<and> n \<le> 102 then Some (n - 87)
      else if 65 \<le> n \<and> n \<le> 70 then Some (n - 55)
      else None)"

fun hexDecode :: "string \<Rightarrow> byte list" where
  "hexDecode (a # b # rest) =
     (case (hexval a, hexval b) of
        (Some h, Some l) \<Rightarrow> of_nat (16 * h + l) # hexDecode rest
      | _ \<Rightarrow> [])"
| "hexDecode _ = []"

text \<open>
  \<^verbatim>\<open>const b = Buffer.alloc(n); b.write(s, 0, "hex")\<close>: the decoded bytes, at most
  \<open>n\<close> of them, over a buffer of zeros.
\<close>

definition allocWriteHex :: "nat \<Rightarrow> string \<Rightarrow> byte list" where
  "allocWriteHex n s = (let bs = take n (hexDecode s) in bs @ replicate (n - length bs) 0)"

text \<open>
  \<^verbatim>\<open>crypto.createHash("sha256")\<close> is the SHA-256 of FIPS 180-4; successive
  \<^verbatim>\<open>update\<close> calls hash the concatenation of their arguments.
\<close>

text \<open>The round constants and the initial hash value, in decimal.\<close>

definition K256 :: "32 word list" where
  "K256 =
    [
     1116352408, 1899447441, 3049323471, 3921009573,
     961987163, 1508970993, 2453635748, 2870763221,
     3624381080, 310598401, 607225278, 1426881987,
     1925078388, 2162078206, 2614888103, 3248222580,
     3835390401, 4022224774, 264347078, 604807628,
     770255983, 1249150122, 1555081692, 1996064986,
     2554220882, 2821834349, 2952996808, 3210313671,
     3336571891, 3584528711, 113926993, 338241895,
     666307205, 773529912, 1294757372, 1396182291,
     1695183700, 1986661051, 2177026350, 2456956037,
     2730485921, 2820302411, 3259730800, 3345764771,
     3516065817, 3600352804, 4094571909, 275423344,
     430227734, 506948616, 659060556, 883997877,
     958139571, 1322822218, 1537002063, 1747873779,
     1955562222, 2024104815, 2227730452, 2361852424,
     2428436474, 2756734187, 3204031479, 3329325298]"

definition H256 :: "32 word list" where
  "H256 = [1779033703, 3144134277, 1013904242, 2773480762,
           1359893119, 2600822924, 528734635, 1541459225]"

definition sha_pad :: "byte list \<Rightarrow> byte list" where
  "sha_pad m =
     m @ [0x80] @ replicate ((119 - length m mod 64) mod 64) 0
       @ map (\<lambda>i. word_of_int (drop_bit (8 * (7 - i)) (8 * int (length m)))) [0..<8]"

fun word_of_bytes :: "byte list \<Rightarrow> 32 word" where
  "word_of_bytes bs = foldl (\<lambda>acc b. push_bit 8 acc OR ucast b) 0 bs"

fun bytes_of_word :: "32 word \<Rightarrow> byte list" where
  "bytes_of_word w = map (\<lambda>i. ucast (drop_bit (8 * (3 - i)) w)) [0..<4]"

fun chunks :: "nat \<Rightarrow> 'a list \<Rightarrow> 'a list list" where
  "chunks n [] = []"
| "chunks n (x # xs) = take n (x # xs) # chunks n (drop (n - 1) xs)"

definition ssig0 :: "32 word \<Rightarrow> 32 word" where
  "ssig0 x = word_rotr 7 x XOR word_rotr 18 x XOR drop_bit 3 x"

definition ssig1 :: "32 word \<Rightarrow> 32 word" where
  "ssig1 x = word_rotr 17 x XOR word_rotr 19 x XOR drop_bit 10 x"

definition bsig0 :: "32 word \<Rightarrow> 32 word" where
  "bsig0 x = word_rotr 2 x XOR word_rotr 13 x XOR word_rotr 22 x"

definition bsig1 :: "32 word \<Rightarrow> 32 word" where
  "bsig1 x = word_rotr 6 x XOR word_rotr 11 x XOR word_rotr 25 x"

definition ch :: "32 word \<Rightarrow> 32 word \<Rightarrow> 32 word \<Rightarrow> 32 word" where
  "ch x y z = (x AND y) XOR (NOT x AND z)"

definition maj :: "32 word \<Rightarrow> 32 word \<Rightarrow> 32 word \<Rightarrow> 32 word" where
  "maj x y z = (x AND y) XOR (x AND z) XOR (y AND z)"

fun schedule :: "nat \<Rightarrow> 32 word list \<Rightarrow> 32 word list" where
  "schedule 0 w = w"
| "schedule (Suc n) w =
     schedule n (w @ [ssig1 (w ! (length w - 2)) + w ! (length w - 7)
                      + ssig0 (w ! (length w - 15)) + w ! (length w - 16)])"

fun sha_round :: "32 word list \<Rightarrow> 32 word \<times> 32 word \<Rightarrow> 32 word list" where
  "sha_round [a, b, c, d, e, f, g, h] (k, w) =
     (let t1 = h + bsig1 e + ch e f g + k + w;
          t2 = bsig0 a + maj a b c
      in [t1 + t2, a, b, c, d + t1, e, f, g])"
| "sha_round s _ = s"

definition sha_block :: "32 word list \<Rightarrow> byte list \<Rightarrow> 32 word list" where
  "sha_block h block =
     map2 (+) h (foldl sha_round h (zip K256 (schedule 48 (map word_of_bytes (chunks 4 block)))))"

definition sha256 :: "byte list \<Rightarrow> byte list" where
  "sha256 m = concat (map bytes_of_word (foldl sha_block H256 (chunks 64 (sha_pad m))))"

text \<open>A JavaScript string of ASCII characters as the bytes \<^verbatim>\<open>update\<close> hashes.\<close>

definition bytes_of_string :: "string \<Rightarrow> byte list" where
  "bytes_of_string s = map (\<lambda>c. of_nat (of_char c)) s"

subsection \<open>Serialization of points (point.ts)\<close>

definition secSerialize :: "point \<Rightarrow> error + byte list" where
  "secSerialize p =
     (case (px p, py p) of
        (Some x, Some y) \<Rightarrow> Inr ((if rem_js y 2 = 0 then 0x02 else 0x03) # be32 x)
      | _ \<Rightarrow> Inl SerializeInfinity)"


definition xonlySerialize :: "point \<Rightarrow> error + byte list" where
  "xonlySerialize p =
     (case (px p, py p) of
        (Some x, Some y) \<Rightarrow> Inr (allocWriteHex 32 (padStart (toString16 x) 64 CHR ''0''))
      | _ \<Rightarrow> Inl SerializeInfinity)"

text \<open>
  \<^verbatim>\<open>Point.secDeserialize(hexPublicKey)\<close>. The only \<^verbatim>\<open>throw\<close> inside its
  \<^verbatim>\<open>try\<close> block is the length check; the \<^verbatim>\<open>catch\<close> rethrows it as the
  "Invalid hex input" error.
\<close>

definition secDeserialize :: "string \<Rightarrow> error + point" where
  "secDeserialize hexPublicKey =
     (let hexBytes = hexDecode hexPublicKey in
      if length hexBytes \<noteq> 33 then Inl InvalidSecInput
      else
        let isEven = (hd hexBytes = 0x02);
            x = be_to_int (tl hexBytes);
            ySquared = rem_js (x ^ 3 + 7) P;
            y = pow ySquared (div_js (P + 1) 4) P;
            y' = (if rem_js y 2 = 0
                  then (if isEven then y else rem_js (P - y) P)
                  else (if isEven then rem_js (P - y) P else y))
        in Inr (Point (Some x) (Some y')))"

subsection \<open>Matrices over the scalars (matrix.ts)\<close>

type_synonym matrix = "int list list"

text \<open>
  \<^verbatim>\<open>m[r]![c]!\<close> used as an operand: an element that does not exist is
  \<^verbatim>\<open>undefined\<close>, and arithmetic on it, or a method call on it, is a TypeError.
\<close>

definition entry :: "'a list list \<Rightarrow> nat \<Rightarrow> nat \<Rightarrow> error + 'a" where
  "entry m r c = (if r < length m \<and> c < length (m ! r) then Inr (m ! r ! c)
                  else Inl UndefinedOperand)"

definition createVandermonde :: "int list \<Rightarrow> matrix" where
  "createVandermonde indices =
     map (\<lambda>x. map (\<lambda>i. rem_js (x ^ i) Q) [0..<length indices]) indices"

definition remove_nth :: "nat \<Rightarrow> 'a list \<Rightarrow> 'a list" where
  "remove_nth k xs = take k xs @ drop (Suc k) xs"

lemma bindE_cong [fundef_cong]:
  "m = m' \<Longrightarrow> (\<And>v. m' = Inr v \<Longrightarrow> f v = f' v) \<Longrightarrow> bindE m f = bindE m' f'"
  by (cases m') (simp_all add: bindE_def)

text \<open>
  \<^verbatim>\<open>determinant()\<close>: the entry for one row, the cross product for two rows, and
  otherwise the expansion along the first row, the loop
  \<^verbatim>\<open>det += ((-1n) ** BigInt(c) * this.matrix[0]![c]! * minor.determinant()) % Q; det %= Q\<close>
  over the columns \<open>c\<close>. A matrix without rows skips both tests and the loop.
\<close>

function determinant :: "matrix \<Rightarrow> error + int" where
  "determinant m =
     (if length m = 1 then bindE (entry m 0 0) (\<lambda>a. Inr (rem_js a Q))
      else if length m = 2 then
        bindE (entry m 0 0) (\<lambda>a. bindE (entry m 1 1) (\<lambda>d.
        bindE (entry m 0 1) (\<lambda>b. bindE (entry m 1 0) (\<lambda>c.
          Inr (rem_js (a * d - b * c) Q)))))
      else
        foldl (\<lambda>acc c. bindE acc (\<lambda>det.
                 bindE (entry m 0 c) (\<lambda>a.
                 bindE (determinant (map (remove_nth c) (tl m))) (\<lambda>minor_det.
                   Inr (rem_js (det + rem_js ((- 1) ^ c * a * minor_det) Q) Q)))))
              (Inr 0) [0..<length m])"
  by pat_completeness auto
termination
proof (relation "measure length")
  show "wf (measure (length :: matrix \<Rightarrow> nat))" by simp
next
  fix m :: matrix and acc :: "error + int" and c :: nat and det a :: int
  assume "c \<in> set [0..<length m]"
  then have "m \<noteq> []" by auto
  then show "(map (remove_nth c) (tl m), m) \<in> measure length" by simp
qed

declare determinant.simps [simp del]

text \<open>
  \<^verbatim>\<open>inverseMatrix()\<close>: \<^verbatim>\<open>adj[j][i]\<close> is the signed determinant of the matrix
  without row \<open>i\<close> and column \<open>j\<close>; every entry is then multiplied by
  \<^verbatim>\<open>modPow(det, Q - 2n, Q)\<close>.
\<close>

definition inverseMatrix :: "matrix \<Rightarrow> error + matrix" where
  "inverseMatrix m =
     (let n = length m in
      bindE (mapE (\<lambda>j. mapE (\<lambda>i.
               bindE (determinant (map (remove_nth j) (remove_nth i m))) (\<lambda>d.
                 Inr (rem_js ((- 1) ^ (i + j) * d) Q))) [0..<n]) [0..<n]) (\<lambda>adj.
      bindE (determinant m) (\<lambda>det.
        let detInv = pow det (Q - 2) Q
        in Inr (map (map (\<lambda>a. rem_js (a * detInv) Q)) adj))))"

text \<open>
  \<^verbatim>\<open>multPointMatrix(Y)\<close>: for every row of the matrix and every column \<open>j\<close> of
  \<open>Y\<close>, the sum of \<^verbatim>\<open>Y[k]![j]!.multiply(aRow[k]!)\<close> over \<open>k\<close>, started at
  infinity.
\<close>

definition multPointMatrix :: "matrix \<Rightarrow> point list list \<Rightarrow> error + point list list" where
  "multPointMatrix m Y =
     mapE (\<lambda>aRow.
       if Y = [] then Inl UndefinedOperand
       else mapE (\<lambda>j.
              foldl (\<lambda>acc k. bindE acc (\<lambda>sumPoint.
                       bindE (entry Y k j) (\<lambda>point.
                       bindE (multiply point (aRow ! k)) (\<lambda>product. add sumPoint product))))
                    (Inr infinity) [0..<length aRow])
            [0..<length (hd Y)]) m"

text \<open>
  \<^verbatim>\<open>deriveCoefficientCommitments(publicVerificationShares, participantIndexes)\<close> of
  participant.ts. \<open>Y\<close> has one column, so every row of the product has one entry,
  which \<^verbatim>\<open>coeff[0]!\<close> reads.
\<close>

definition deriveCoefficientCommitments :: "point list \<Rightarrow> int list \<Rightarrow> error + point list" where
  "deriveCoefficientCommitments publicVerificationShares participantIndexes =
     (if length publicVerificationShares \<noteq> length participantIndexes
      then Inl SharesCountMismatch
      else
        bindE (inverseMatrix (createVandermonde participantIndexes)) (\<lambda>AInv.
        bindE (multPointMatrix AInv (map (\<lambda>share. [share]) publicVerificationShares))
          (\<lambda>coefficients. Inr (map hd coefficients))))"

subsection \<open>Aggregator (aggregator.ts)\<close>

definition writeUInt8 :: "int \<Rightarrow> error + byte" where
  "writeUInt8 v = (if 0 \<le> v \<and> v \<le> 255 then Inr (word_of_int v) else Inl UInt8OutOfRange)"

definition bindingValue ::
  "int \<Rightarrow> byte list \<Rightarrow> (point \<times> point) list \<Rightarrow> int list \<Rightarrow> error + int" where
  "bindingValue index message nonceCommitmentPairs participantIndexes =
     (if index < 1 then Inl IndexMustStartFromOne
      else
        bindE (writeUInt8 index) (\<lambda>indexByte.
        bindE (mapE (\<lambda>idx.
                 if idx < 1 \<or> idx > int (length nonceCommitmentPairs)
                 then Inl (IndexOutOfRange idx)
                 else
                   let participantPair = nonceCommitmentPairs ! nat (idx - 1)
                   in bindE (secSerialize (fst participantPair)) (\<lambda>first.
                      bindE (secSerialize (snd participantPair)) (\<lambda>second.
                        Inr (first @ second))))
               participantIndexes) (\<lambda>nonceCommitmentPairsBytes.
          Inr (rem_js (be_to_int (sha256 ([indexByte] @ message
                                            @ concat nonceCommitmentPairsBytes))) Q))))"

definition groupCommitment ::
  "byte list \<Rightarrow> (point \<times> point) list \<Rightarrow> int list \<Rightarrow> error + point" where
  "groupCommitment message nonceCommitmentPairs participantIndexes =
     bindE (foldl (\<lambda>acc index. bindE acc (\<lambda>groupCommitment.
                     if index < 1 \<or> index > int (length nonceCommitmentPairs)
                     then Inl (ParticipantIndexOutOfRange index)
                     else
                       bindE (bindingValue index message nonceCommitmentPairs
                                participantIndexes) (\<lambda>bv.
                       let pair = nonceCommitmentPairs ! nat (index - 1)
                       in bindE (multiply (snd pair) bv) (\<lambda>product.
                          bindE (add (fst pair) product) (\<lambda>partialCommitment.
                            add groupCommitment partialCommitment)))))
                  (Inr infinity) participantIndexes)
       (\<lambda>groupCommitment.
          if isInfinity groupCommitment then Inl InfiniteGroupCommitment
          else Inr groupCommitment)"

definition challengeHash :: "point \<Rightarrow> point \<Rightarrow> byte list \<Rightarrow> error + int" where
  "challengeHash nonceCommitment publicKey message =
     (let tagHash = sha256 (bytes_of_string ''BIP0340/challenge'')
      in bindE (xonlySerialize nonceCommitment) (\<lambda>r.
         bindE (xonlySerialize publicKey) (\<lambda>pk.
           Inr (rem_js (be_to_int (sha256 (tagHash @ tagHash @ r @ pk @ message))) Q))))"

definition ComputeTweaks :: "int \<Rightarrow> int \<Rightarrow> point \<Rightarrow> error + point \<times> int \<times> int" where
  "ComputeTweaks bip32Tweak taprootTweak publicKey =
     bindE (multiply G bip32Tweak) (\<lambda>g1.
     bindE (add publicKey g1) (\<lambda>bip32Key.
       case py bip32Key of
         None \<Rightarrow> Inl InvalidPublicKey
       | Some y1 \<Rightarrow>
           let isBip32KeyOdd = (rem_js y1 2 \<noteq> 0);
               adjustedBip32Key = (if isBip32KeyOdd then negate bip32Key else bip32Key);
               bip32Parity = (if isBip32KeyOdd then 1 else 0);
               adjustedBip32Tweak = (if isBip32KeyOdd then - bip32Tweak else bip32Tweak)
           in bindE (multiply G taprootTweak) (\<lambda>g2.
              bindE (add adjustedBip32Key g2) (\<lambda>aggregateKey.
                case py aggregateKey of
                  None \<Rightarrow> Inl InvalidPublicKey
                | Some y2 \<Rightarrow>
                    let aggregateTweak = rem_js (adjustedBip32Tweak + taprootTweak) Q;
                        adjustedAggregateTweak =
                          (if rem_js y2 2 \<noteq> 0 then rem_js (- aggregateTweak + Q) Q
                           else aggregateTweak)
                    in Inr (aggregateKey, adjustedAggregateTweak, bip32Parity)))))"

definition tweakKey :: "int \<Rightarrow> int \<Rightarrow> point \<Rightarrow> error + point \<times> int" where
  "tweakKey bip32Tweak taprootTweak publicKey =
     bindE (ComputeTweaks bip32Tweak taprootTweak publicKey)
       (\<lambda>(tweakedKey, _, p). Inr (tweakedKey, p))"

record aggregator =
  publicKey :: point
  message :: "byte list"
  nonceCommitmentPairs :: "(point \<times> point) list"
  participantIndexes :: "int list"
  tweakedKey :: "point option"
  tweak :: "int option"

text \<open>The constructor; an absent optional argument is \<open>None\<close>.\<close>

definition new_Aggregator ::
  "point \<Rightarrow> byte list \<Rightarrow> (point \<times> point) list \<Rightarrow> int list \<Rightarrow> int option \<Rightarrow> int option
     \<Rightarrow> error + aggregator" where
  "new_Aggregator pk msg pairs idxs bip32Tweak taprootTweak =
     (if (bip32Tweak = None) \<noteq> (taprootTweak = None) then Inl TweaksNotPaired
      else
        case (bip32Tweak, taprootTweak) of
          (Some b, Some t) \<Rightarrow>
            bindE (ComputeTweaks b t pk) (\<lambda>(tk, tw, _).
              Inr \<lparr>publicKey = pk, message = msg, nonceCommitmentPairs = pairs,
                   participantIndexes = idxs, tweakedKey = Some tk, tweak = Some tw\<rparr>)
        | _ \<Rightarrow>
            Inr \<lparr>publicKey = pk, message = msg, nonceCommitmentPairs = pairs,
                 participantIndexes = idxs, tweakedKey = None, tweak = None\<rparr>)"

definition signature :: "aggregator \<Rightarrow> int list \<Rightarrow> error + byte list" where
  "signature a signatureShares =
     bindE (groupCommitment (message a) (nonceCommitmentPairs a) (participantIndexes a))
       (\<lambda>groupCommitment.
          let z0 = foldl (\<lambda>sum share. rem_js (sum + share) Q) 0 signatureShares;
              z1 = (if z0 < 0 then rem_js (z0 + Q) Q else z0)
          in bindE (case (tweak a, tweakedKey a) of
                      (Some tw, Some tk) \<Rightarrow>
                        bindE (challengeHash groupCommitment tk (message a)) (\<lambda>c.
                          Inr (rem_js (z1 + c * tw) Q))
                    | _ \<Rightarrow> Inr z1) (\<lambda>z.
             bindE (xonlySerialize groupCommitment) (\<lambda>nonceCommitmentBuffer.
               Inr (nonceCommitmentBuffer
                      @ allocWriteHex 32 (padStart (toString16 z) 64 CHR ''0'')))))"

subsection \<open>Participant (participant.ts)\<close>

text \<open>
  The mutable object, with \<^verbatim>\<open>null\<close> as \<open>None\<close>. A method is a function from the
  state to the error it throws, if any, and the state it leaves: fields assigned
  before a \<^verbatim>\<open>throw\<close> stay assigned.
\<close>

record participant =
  index :: int
  threshold :: int
  participants :: int
  coefficients :: "int list option"
  coefficientCommitments :: "point list option"
  proofOfKnowledge :: "(point \<times> int) option"
  shares :: "int list option"
  aggregateShare :: "int option"
  noncePair :: "(int \<times> int) option"
  nonceCommitmentPair :: "(point \<times> point) option"
  publicKey :: "point option"
  repairShares :: "int list option"
  aggregateRepairShare :: "int option"
  repairShareCommitments :: "point list option"
  groupCommitments :: "point list option"
  repairParticipants :: "int list option"

text \<open>\<^verbatim>\<open>new Participant(index, threshold, participants)\<close>.\<close>

definition new_Participant :: "int \<Rightarrow> int \<Rightarrow> int \<Rightarrow> participant" where
  "new_Participant i t n =
     \<lparr>index = i, threshold = t, participants = n, coefficients = None,
      coefficientCommitments = None, proofOfKnowledge = None, shares = None,
      aggregateShare = None, noncePair = None, nonceCommitmentPair = None,
      publicKey = None, repairShares = None, aggregateRepairShare = None,
      repairShareCommitments = None, groupCommitments = None, repairParticipants = None\<rparr>"

text \<open>
  \<^verbatim>\<open>generateRepairShares(repairParticipants, index)\<close>. The values drawn with
  \<^verbatim>\<open>Math.random()\<close> are the argument \<open>random\<close>: \<open>random k\<close> is the \<open>k\<close>-th
  draw of \<^verbatim>\<open>Array.from({ length: this.threshold - 1 }, ...)\<close>.
\<close>

definition generateRepairShares ::
  "participant \<Rightarrow> int list \<Rightarrow> int \<Rightarrow> (nat \<Rightarrow> int) \<Rightarrow> error option \<times> participant" where
  "generateRepairShares p repairParticipants' index' random =
     (case aggregateShare p of
        None \<Rightarrow> (Some AggregateShareNotInitialized, p)
      | Some s \<Rightarrow>
          (case lagrangeCoefficient (index p) repairParticipants' 0 (Some index') of
             Inl e \<Rightarrow> (Some e, p)
           | Inr lagrangeCoefficient' \<Rightarrow>
               let randomShares = map random [0..<nat (threshold p - 1)];
                   finalShare = rem_js (lagrangeCoefficient' * s - foldl (+) 0 randomShares) Q;
                   p1 = p\<lparr>repairShares := Some (randomShares @ [finalShare])\<rparr>
               in (case mapE (multiply G) (randomShares @ [finalShare]) of
                     Inl e \<Rightarrow> (Some e, p1)
                   | Inr commitments \<Rightarrow>
                       (None, p1\<lparr>repairShareCommitments := Some commitments,
                                  repairParticipants :=
                                    Some (sort (repairParticipants' @ [index p]))\<rparr>))))"

text \<open>\<^verbatim>\<open>array.indexOf(v)\<close> for a value the array holds.\<close>

fun indexOf :: "'a \<Rightarrow> 'a list \<Rightarrow> nat" where
  "indexOf v [] = 0"
| "indexOf v (x # xs) = (if x = v then 0 else Suc (indexOf v xs))"

text \<open>
  \<^verbatim>\<open>getRepairShare(participantIndex)\<close>; the result \<open>Inr None\<close> is the
  \<^verbatim>\<open>undefined\<close> of an array read past the end.
\<close>

definition getRepairShare :: "participant \<Rightarrow> int \<Rightarrow> error + int option" where
  "getRepairShare p participantIndex =
     (case (repairParticipants p, repairShares p) of
        (Some rp, Some rs) \<Rightarrow>
          if participantIndex \<notin> set rp then Inl NotARepairParticipant
          else
            let mappedIndex = indexOf participantIndex rp
            in Inr (if mappedIndex < length rs then Some (rs ! mappedIndex) else None)
      | _ \<Rightarrow> Inl RepairSharesNotInitialized)"

definition aggregateRepairShares :: "participant \<Rightarrow> int list \<Rightarrow> error option \<times> participant" where
  "aggregateRepairShares p otherShares =
     (if repairShares p = None then (Some RepairSharesNotInitialized, p)
      else if int (length otherShares) \<noteq> threshold p - 1 then (Some WrongShareCount, p)
      else
        case getRepairShare p (index p) of
          Inl e \<Rightarrow> (Some e, p)
        | Inr None \<Rightarrow>
            if otherShares = [] then (None, p\<lparr>aggregateRepairShare := None\<rparr>)
            else (Some UndefinedOperand, p)
        | Inr (Some own) \<Rightarrow>
            (None, p\<lparr>aggregateRepairShare :=
                        Some (foldl (\<lambda>acc otherShare. rem_js (acc + otherShare) Q)
                                own otherShares)\<rparr>))"

definition repairShare :: "participant \<Rightarrow> int list \<Rightarrow> error option \<times> participant" where
  "repairShare p aggregateRepairShares' =
     (if aggregateShare p \<noteq> None then (Some ShareNotLost, p)
      else if int (length aggregateRepairShares') \<noteq> threshold p then (Some WrongShareCount, p)
      else (None, p\<lparr>aggregateShare :=
                       Some (foldl (\<lambda>a b. rem_js (a + b) Q) 0 aggregateRepairShares')\<rparr>))"

text \<open>
  \<^verbatim>\<open>increaseThreshold(otherShares)\<close>. The tests \<^verbatim>\<open>!this.shares\<close> and
  \<^verbatim>\<open>!this.aggregateShare\<close> are tests of truthiness: an array is truthy, a bigint is
  falsy when it is \<^verbatim>\<open>0n\<close>.
\<close>

definition falsy_bigint :: "int option \<Rightarrow> bool" where
  "falsy_bigint v = (case v of None \<Rightarrow> True | Some k \<Rightarrow> k = 0)"

definition increaseThreshold :: "participant \<Rightarrow> int list \<Rightarrow> error option \<times> participant" where
  "increaseThreshold p otherShares =
     (case shares p of
        None \<Rightarrow> (Some SharesNotInitialized, p)
      | Some sh \<Rightarrow>
          if falsy_bigint (aggregateShare p) then (Some AggregateShareNotInitialized, p)
          else if index p - 1 < 0 \<or> index p - 1 \<ge> int (length sh)
          then (Some UndefinedOperand, p)
          else
            let aggregateShare' =
                  rem_js (sh ! nat (index p - 1) + foldl (+) 0 otherShares) Q
            in (None, p\<lparr>aggregateShare :=
                  Some (rem_js (the (aggregateShare p) + aggregateShare' * index p) Q)\<rparr>))"

text \<open>
  \<^verbatim>\<open>computeProofOfKnowledge()\<close>; the argument \<open>nonce\<close> is the value
  \<^verbatim>\<open>BigInt("0x" + crypto.randomBytes(32).toString("hex")) % Q\<close> the method draws. The
  challenge is the digest read as a number, not reduced modulo \<open>Q\<close>.
\<close>

definition CONTEXT :: "byte list" where
  "CONTEXT = bytes_of_string ''FROST-BIP340''"

definition computeProofOfKnowledge :: "participant \<Rightarrow> int \<Rightarrow> error option \<times> participant" where
  "computeProofOfKnowledge p nonce =
     (case coefficients p of
        None \<Rightarrow> (Some CoefficientsNotInitialized, p)
      | Some cs \<Rightarrow>
          if cs = [] then (Some CoefficientsNotInitialized, p)
          else
            (case bindE (multiply G nonce) (\<lambda>nonceCommitment'.
                  bindE (writeUInt8 (index p)) (\<lambda>indexByte.
                  let secret = hd cs
                  in bindE (multiply G secret) (\<lambda>secretCommitment.
                     bindE (secSerialize secretCommitment) (\<lambda>secretCommitmentBytes.
                     bindE (secSerialize nonceCommitment') (\<lambda>nonceCommitmentBytes.
                       let challengeHashInt =
                             be_to_int (sha256 ([indexByte] @ CONTEXT @ secretCommitmentBytes
                                                  @ nonceCommitmentBytes))
                       in Inr (nonceCommitment',
                               rem_js (nonce + secret * challengeHashInt) Q)))))) of
               Inl e \<Rightarrow> (Some e, p)
             | Inr proof' \<Rightarrow> (None, p\<lparr>proofOfKnowledge := Some proof'\<rparr>)))"

definition verifyProofOfKnowledge :: "point \<times> int \<Rightarrow> point \<Rightarrow> int \<Rightarrow> error + bool" where
  "verifyProofOfKnowledge proof' secretCommitment index' =
     (let nonceCommitment' = fst proof'; s = snd proof'
      in bindE (writeUInt8 index') (\<lambda>indexByte.
         bindE (secSerialize secretCommitment) (\<lambda>secretCommitmentBytes.
         bindE (secSerialize nonceCommitment') (\<lambda>nonceCommitmentBytes.
           let challengeHashInt =
                 be_to_int (sha256 ([indexByte] @ CONTEXT @ secretCommitmentBytes
                                      @ nonceCommitmentBytes))
           in bindE (multiply G s) (\<lambda>gs.
              bindE (multiply secretCommitment (Q - challengeHashInt)) (\<lambda>cs.
              bindE (add gs cs) (\<lambda>expectedNonceCommitment.
                Inr (equals nonceCommitment' expectedNonceCommitment))))))))"

text \<open>
  \<^verbatim>\<open>evaluatePolynomial(x)\<close> on the coefficients of the participant: Horner's rule
  from the highest coefficient down.
\<close>

definition evaluatePolynomial :: "int list option \<Rightarrow> int \<Rightarrow> error + int" where
  "evaluatePolynomial coefficients' x =
     (case coefficients' of
        None \<Rightarrow> Inl CoefficientsNotInitialized
      | Some cs \<Rightarrow>
          if cs = [] then Inl CoefficientsNotInitialized
          else Inr (foldr (\<lambda>c y. rem_js (y * x + c) Q) cs 0))"

subsection \<open>The repair protocol\<close>

text \<open>
  The run of the repair protocol as section 4.D of the specification lays it out (the
  sources leave the exchange to the caller): every helper calls
  \<^verbatim>\<open>generateRepairShares\<close> with the other helpers as its repair participants and the
  index of the participant to repair; every helper then receives from each other helper
  the repair share \<^verbatim>\<open>getRepairShare\<close> gives for its index and calls
  \<^verbatim>\<open>aggregateRepairShares\<close>; the participant to repair calls \<^verbatim>\<open>repairShare\<close> on
  the aggregate repair shares. \<open>random h\<close> are the draws of helper \<open>h\<close>.
\<close>

definition defined_value :: "'a option \<Rightarrow> error + 'a" where
  "defined_value v = (case v of None \<Rightarrow> Inl UndefinedOperand | Some x \<Rightarrow> Inr x)"

definition returned :: "error option \<times> participant \<Rightarrow> error + participant" where
  "returned r = (case fst r of Some e \<Rightarrow> Inl e | None \<Rightarrow> Inr (snd r))"

definition repair_protocol ::
  "participant list \<Rightarrow> (int \<Rightarrow> nat \<Rightarrow> int) \<Rightarrow> participant \<Rightarrow> error + participant" where
  "repair_protocol helpers random lost =
     bindE (mapE (\<lambda>h. returned (generateRepairShares h
                      (map index (filter (\<lambda>h'. index h' \<noteq> index h) helpers))
                      (index lost) (random (index h)))) helpers) (\<lambda>dealers.
     bindE (mapE (\<lambda>h.
              bindE (mapE (\<lambda>h'. bindE (getRepairShare h' (index h)) defined_value)
                       (filter (\<lambda>h'. index h' \<noteq> index h) dealers)) (\<lambda>received.
              bindE (returned (aggregateRepairShares h received)) (\<lambda>h''.
                defined_value (aggregateRepairShare h'')))) dealers) (\<lambda>aggregates.
       returned (repairShare lost aggregates)))"

subsection \<open>Sample values\<close>

text \<open>
  The abscissa of the curve point \<open>(X1, 1)\<close>: \<open>X1\<^sup>3 + 7\<close> is 1 modulo \<open>P\<close>.
\<close>

definition X1 :: int where
  "X1 = 0x1fe1e5ef3fceb5c135ab7741333ce5a6e80d68167653f6b2b24bcbcfaaaff507"

definition X1_bytes :: "byte list" where
  "X1_bytes = [31, 225, 229, 239, 63, 206, 181, 193, 53, 171, 119, 65, 51, 60, 229, 166, 232, 13, 104, 22, 118, 83, 246, 178, 178, 75, 203, 207, 170, 175, 245, 7]"

text \<open>
  Twice the generator, and the inverses and slopes that \<^verbatim>\<open>G.double()\<close> and
  \<^verbatim>\<open>G2.negate().add(G)\<close> compute on the way.
\<close>

definition G2X :: int where
  "G2X = 0xC6047F9441ED7D6D3045406E95C07CD85C778E4B8CEF3CA7ABAC09B95C709EE5"

definition G2Y :: int where
  "G2Y = 0x1AE168FEA63DC339A3C58419466CEAEEF7F632653266D0E1236431A950CFE52A"

definition G2 :: point where
  "G2 = Point (Some G2X) (Some G2Y)"

definition INV_2GY :: int where
  "INV_2GY = 0xB7E31A064ED74D314DE79011C5F0A46AC155602353DC3D340FBEAEEC9767A6A6"

definition SLOPE_G :: int where
  "SLOPE_G = 0xCB35B28428101A303EB9D1235992AC63F58857C2F631EE6936D3AEBBEDDCD1B1"

definition INV_GX_G2X :: int where
  "INV_GX_G2X = 0x536B9083263314472A67FC18C382ED55C6A4D1481A65745EE68BD20ABD03962B"

definition SLOPE_N :: int where
  "SLOPE_N = 0xCB35B28428101A303EB9D1235992AC63F58857C2F631EE6936D3AEBBEDDCD1B1"

text \<open>
  A 2-of-3 sharing of the polynomial \<open>1 + A1 \<cdot> X\<close> over the scalars: \<open>SHARE1\<close>,
  \<open>SHARE2\<close> and \<open>SHARE3\<close> are its values at 1, 2 and 3.
\<close>

definition A1 :: int where
  "A1 = 0xAAAAAAAAAAAAAAAAAAAAAAAAAAAAAAA9D1C9E899CA306AD27FE1945DE0242B80"

definition SHARE1 :: int where
  "SHARE1 = 0xAAAAAAAAAAAAAAAAAAAAAAAAAAAAAAA9D1C9E899CA306AD27FE1945DE0242B81"

definition SHARE2 :: int where
  "SHARE2 = 0x55555555555555555555555555555554E8E4F44CE51835693FF0CA2EF01215C0"

definition SHARE3 :: int where
  "SHARE3 = 0xFFFFFFFFFFFFFFFFFFFFFFFFFFFFFFFEBAAEDCE6AF48A03BBFD25E8CD0364140"

definition helper1 :: participant where
  "helper1 = (new_Participant 1 2 3)\<lparr>aggregateShare := Some SHARE1\<rparr>"

definition helper3 :: participant where
  "helper3 = (new_Participant 3 2 3)\<lparr>aggregateShare := Some SHARE3\<rparr>"

definition lost2 :: participant where
  "lost2 = new_Participant 2 2 3"

section \<open>Arithmetic facts\<close>

lemma Q_pos: "0 < Q"
  by (simp add: Q_def)

lemma Q_gt_2: "2 < Q"
  by (simp add: Q_def)

lemma rem_js_nonneg: "0 \<le> a \<Longrightarrow> 0 < b \<Longrightarrow> rem_js a b = a mod b"
  by (simp add: rem_js_def sgn_if)

lemma rem_js_abs_less: "b \<noteq> 0 \<Longrightarrow> \<bar>rem_js a b\<bar> < \<bar>b\<bar>"
  by (simp add: rem_js_def abs_mult sgn_if)

lemma rem_js_mod: "0 < b \<Longrightarrow> rem_js a b mod b = a mod b"
proof (cases "0 \<le> a")
  case True
  assume "0 < b"
  with True show ?thesis by (simp add: rem_js_nonneg)
next
  case False
  assume b: "0 < b"
  from False have "rem_js a b = - ((- a) mod b)"
    using b by (simp add: rem_js_def sgn_if)
  then have "rem_js a b mod b = (- ((- a) mod b)) mod b" by simp
  also have "\<dots> = (- (- a)) mod b" by (rule mod_minus_eq)
  finally show ?thesis by simp
qed

lemma mod_js_eq_mod: "0 < b \<Longrightarrow> mod_js a b = a mod b"
proof -
  assume b: "0 < b"
  have "\<bar>rem_js a b\<bar> < b" using rem_js_abs_less [of b a] b by simp
  then have nn: "0 \<le> rem_js a b + b" by linarith
  have "mod_js a b = (rem_js a b + b) mod b"
    unfolding mod_js_def using nn b by (rule rem_js_nonneg)
  also have "\<dots> = rem_js a b mod b" by simp
  also have "\<dots> = a mod b" using b by (rule rem_js_mod)
  finally show ?thesis .
qed

subsection \<open>Modular exponentiation and the Lagrange loop\<close>

lemma pow_loop_mod:
  "0 < m \<Longrightarrow> pow_loop r b e m mod m = (r * b ^ nat e) mod m"
proof (induction r b e m rule: pow_loop.induct)
  case (1 result base exponent modulus)
  show ?case
  proof (cases "exponent > 0")
    case False
    then show ?thesis by (simp add: pow_loop.simps)
  next
    case True
    let ?r' = "if rem_js exponent 2 = 1 then rem_js (result * base) modulus else result"
    let ?b' = "rem_js (base * base) modulus"
    have step: "pow_loop result base exponent modulus = pow_loop ?r' ?b' (exponent div 2) modulus"
      using True by (subst pow_loop.simps) simp
    have IH: "pow_loop ?r' ?b' (exponent div 2) modulus mod modulus
        = (?r' * ?b' ^ nat (exponent div 2)) mod modulus"
      using "1.IH" [OF True] "1.prems" by simp
    have b': "?b' ^ nat (exponent div 2) mod modulus = (base * base) ^ nat (exponent div 2) mod modulus"
      using rem_js_mod [OF "1.prems", of "base * base"] by (metis power_mod)
    have odd_iff: "rem_js exponent 2 = 1 \<longleftrightarrow> odd exponent"
      using True by (simp add: rem_js_nonneg odd_iff_mod_2_eq_one)
    have e: "nat exponent = 2 * nat (exponent div 2) + (if odd exponent then 1 else 0)"
      using True by (auto elim!: oddE evenE)
    have r': "?r' mod modulus = (if odd exponent then result * base else result) mod modulus"
      using rem_js_mod [OF "1.prems", of "result * base"] odd_iff by simp
    have "(?r' * ?b' ^ nat (exponent div 2)) mod modulus
        = ((?r' mod modulus) * (?b' ^ nat (exponent div 2) mod modulus)) mod modulus"
      by (simp add: mod_mult_eq)
    also have "\<dots> = (((if odd exponent then result * base else result) mod modulus)
        * ((base * base) ^ nat (exponent div 2) mod modulus)) mod modulus"
      by (simp only: r' b')
    also have "\<dots> = ((if odd exponent then result * base else result)
        * (base * base) ^ nat (exponent div 2)) mod modulus"
      by (simp add: mod_mult_eq)
    also have "\<dots> = (result * base ^ nat exponent) mod modulus"
      by (subst e) (simp add: power_add power_mult power2_eq_square power_mult_distrib ac_simps)
    finally show ?thesis using step IH by simp
  qed
qed


lemma pow_loop_abs_less:
  "0 < m \<Longrightarrow> \<bar>r\<bar> < m \<Longrightarrow> \<bar>pow_loop r b e m\<bar> < m"
proof (induction r b e m rule: pow_loop.induct)
  case (1 result base exponent modulus)
  show ?case
  proof (cases "exponent > 0")
    case False
    then show ?thesis using "1.prems" by (simp add: pow_loop.simps)
  next
    case True
    let ?r' = "if rem_js exponent 2 = 1 then rem_js (result * base) modulus else result"
    have "\<bar>?r'\<bar> < modulus"
      using "1.prems" rem_js_abs_less [of modulus "result * base"] by simp
    then show ?thesis
      using "1.IH" [OF True] "1.prems" True by (subst pow_loop.simps) simp
  qed
qed

lemma pow_mod: "1 < m \<Longrightarrow> pow b e m mod m = b ^ nat e mod m"
  using pow_loop_mod [of m 1 "rem_js b m" e] rem_js_mod [of m b]
  by (simp add: pow_def) (metis power_mod)

lemma pow_abs_less: "1 < m \<Longrightarrow> \<bar>pow b e m\<bar> < m"
  using pow_loop_abs_less [of m 1 "rem_js b m" e] by (simp add: pow_def)

lemma lagrange_loop_eq:
  "lagrange_loop x i S n d =
     (n * prod_list (map (\<lambda>j. x - j) (filter (\<lambda>j. j \<noteq> i) S)),
      d * prod_list (map (\<lambda>j. i - j) (filter (\<lambda>j. j \<noteq> i) S)))"
  by (induction S arbitrary: n d) (simp_all add: mult.assoc)

lemma card_set_distinct: "card (set xs) \<noteq> length xs \<longleftrightarrow> \<not> distinct xs"
  using card_distinct distinct_card by metis

lemma pow_loop_one: "1 < m \<Longrightarrow> pow_loop 1 1 e m = 1"
proof (induction "1::int" "1::int" e m rule: pow_loop.induct)
  case (1 exponent modulus)
  show ?case
  proof (cases "exponent > 0")
    case False
    then show ?thesis by (simp add: pow_loop.simps)
  next
    case True
    have one: "rem_js 1 modulus = 1" using "1.prems" by (simp add: rem_js_nonneg)
    show ?thesis
      using "1.hyps" [OF True] "1.prems" True one
      by (subst pow_loop.simps) simp
  qed
qed

lemma pow_one: "1 < m \<Longrightarrow> pow 1 e m = 1"
  by (simp add: pow_def pow_loop_one rem_js_nonneg)

subsection \<open>Serialization and sequencing\<close>

lemma rem_js_2_eq_0: "rem_js y 2 = 0 \<longleftrightarrow> even y"
  by (auto simp add: rem_js_def sgn_if even_iff_mod_2_eq_zero)


lemma be_to_int_foldl_nonneg:
  "0 \<le> a \<Longrightarrow> 0 \<le> foldl (\<lambda>acc b. acc * 256 + uint (b::byte)) a bs"
  by (induction bs arbitrary: a) simp_all

lemma be_to_int_nonneg: "0 \<le> be_to_int bs"
  by (simp add: be_to_int_def be_to_int_foldl_nonneg)


subsection \<open>The field prime and the sample point\<close>

lemma P_pos: "0 < P" by (simp add: P_def)
lemma P_gt_1: "1 < P" by (simp add: P_def)
lemma P_odd: "odd P" by (simp add: P_def)
lemma P_plus_1_div_4: "0 \<le> div_js (P + 1) 4" by (simp add: P_def div_js_def)

lemma pow_loop_nonneg:
  "0 < m \<Longrightarrow> 0 \<le> r \<Longrightarrow> 0 \<le> b \<Longrightarrow> 0 \<le> pow_loop r b e m"
proof (induction r b e m rule: pow_loop.induct)
  case (1 result base exponent modulus)
  show ?case
  proof (cases "exponent > 0")
    case False
    then show ?thesis using "1.prems" by (simp add: pow_loop.simps)
  next
    case True
    have a: "0 \<le> rem_js (result * base) modulus" "0 \<le> rem_js (base * base) modulus"
      using "1.prems" by (simp_all add: rem_js_nonneg)
    show ?thesis
      using "1.IH" [OF True] "1.prems" True a by (subst pow_loop.simps) simp
  qed
qed

lemma pow_nonneg: "1 < m \<Longrightarrow> 0 \<le> b \<Longrightarrow> 0 \<le> pow b e m"
  by (simp add: pow_def pow_loop_nonneg rem_js_nonneg)

lemma mod_certificate:
  "a = k * m + r \<Longrightarrow> 0 \<le> r \<Longrightarrow> r < m \<Longrightarrow> a mod m = (r::int)"
proof -
  assume a: "a = k * m + r" and r: "0 \<le> r" "r < m"
  have "a mod m = r mod m" unfolding a by (rule mod_mult_self3)
  also have "\<dots> = r" using r by (rule mod_pos_pos_trivial)
  finally show ?thesis .
qed

lemma X1_cube: "(X1 ^ 3 + 7) mod P = 1"
proof (rule mod_certificate)
  show "X1 ^ 3 + 7 = 25899507534701520581795134778160311015495504093523267263232233975490419224647606583316828070306725531077228335006842549734466553100443339289797036604723 * P + 1"
    by (simp add: X1_def P_def)
  show "(0::int) \<le> 1" by simp
  show "1 < P" by (rule P_gt_1)
qed

lemma hexDecode_02: "hexDecode ''021fe1e5ef3fceb5c135ab7741333ce5a6e80d68167653f6b2b24bcbcfaaaff507'' = 0x02 # X1_bytes"
  by (simp add: hexval_def X1_bytes_def)

lemma hexDecode_03: "hexDecode ''031fe1e5ef3fceb5c135ab7741333ce5a6e80d68167653f6b2b24bcbcfaaaff507'' = 0x03 # X1_bytes"
  by (simp add: hexval_def X1_bytes_def)

lemma hexDecode_05: "hexDecode ''051fe1e5ef3fceb5c135ab7741333ce5a6e80d68167653f6b2b24bcbcfaaaff507'' = 0x05 # X1_bytes"
  by (simp add: hexval_def X1_bytes_def)

lemma length_X1_bytes: "length X1_bytes = 32"
  by (simp add: X1_bytes_def)

lemma be_to_int_X1_bytes: "be_to_int X1_bytes = X1"
  by (simp add: be_to_int_def X1_bytes_def X1_def)

lemma pow_1_P: "pow 1 e P = 1"
  using P_gt_1 by (rule pow_one)

lemma P_minus_1_mod: "(- 1) mod P = P - 1"
proof -
  have "(P - 1) mod P = P - 1"
    using P_gt_1 by (intro mod_pos_pos_trivial) linarith+
  then show ?thesis by simp
qed

subsection \<open>Degenerate cases of the matrix and point operations\<close>

lemma determinant_no_rows: "determinant [] = Inr 0"
  by (subst determinant.simps) simp

lemma determinant_single: "determinant [[a]] = Inr (rem_js a Q)"
  by (subst determinant.simps) (simp add: entry_def bindE_def)

lemma multiply_zero: "multiply p 0 = Inr infinity"
  using Q_pos by (simp add: multiply_def mod_js_eq_mod multiply_loop.simps)

lemma add_infinity_infinity: "add infinity infinity = Inr infinity"
  by (simp add: add_def equals_def double_def infinity_def)

lemma inverseMatrix_single_one: "inverseMatrix [[1]] = Inr [[0]]"
  using Q_gt_2
  by (simp add: inverseMatrix_def remove_nth_def determinant_no_rows determinant_single
      bindE_def pow_one rem_js_nonneg)

subsection \<open>The modular inverse\<close>

text \<open>
  The Euclidean loop keeps \<open>oldS \<cdot> a \<equiv> oldR\<close> and \<open>s \<cdot> a \<equiv> r\<close> modulo \<open>m\<close>, so
  \<^verbatim>\<open>modInverse\<close> returns the inverse whenever one exists.
\<close>

lemma div_js_nonneg: "0 \<le> a \<Longrightarrow> 0 < b \<Longrightarrow> div_js a b = a div b"
  by (simp add: div_js_def sgn_if)

lemma modInverse_loop_invariant:
  "0 \<le> oldR \<Longrightarrow> 0 \<le> r \<Longrightarrow> modInverse_loop oldR r oldS s = (g, t) \<Longrightarrow>
   (oldS * a) mod m = oldR mod m \<Longrightarrow> (s * a) mod m = r mod m \<Longrightarrow>
   g = gcd oldR r \<and> (t * a) mod m = g mod m"
proof (induction oldR r oldS s rule: modInverse_loop.induct)
  case (1 oldR r oldS s)
  show ?case
  proof (cases "r = 0")
    case True
    with "1.prems" show ?thesis by (simp add: modInverse_loop.simps)
  next
    case False
    then have rpos: "0 < r" using "1.prems" by simp
    define q where "q = div_js oldR r"
    have q: "q = oldR div r" unfolding q_def using "1.prems" rpos by (simp add: div_js_nonneg)
    have r': "oldR - q * r = oldR mod r" unfolding q by (simp add: minus_div_mult_eq_mod)
    have step: "modInverse_loop oldR r oldS s = modInverse_loop r (oldR - q * r) s (oldS - q * s)"
      using False by (subst modInverse_loop.simps) (simp add: q_def Let_def)
    have s': "((oldS - q * s) * a) mod m = (oldR - q * r) mod m"
    proof -
      have "((oldS - q * s) * a) mod m = (oldS * a - q * (s * a)) mod m"
        by (simp add: algebra_simps)
      also have "\<dots> = (oldR - q * r) mod m"
        using "1.prems" by (intro mod_diff_cong mod_mult_cong refl)
      finally show ?thesis .
    qed
    have "g = gcd r (oldR - q * r) \<and> (t * a) mod m = g mod m"
    proof (rule "1.IH" [OF False q_def])
      show "0 \<le> r" using rpos by simp
      show "0 \<le> oldR - q * r" unfolding r' using rpos by simp
      show "modInverse_loop r (oldR - q * r) s (oldS - q * s) = (g, t)"
        using "1.prems" step by simp
      show "s * a mod m = r mod m" using "1.prems" by simp
      show "(oldS - q * s) * a mod m = (oldR - q * r) mod m" by (rule s')
    qed
    moreover have "gcd r (oldR - q * r) = gcd oldR r"
      unfolding r' by (rule gcd_red_int [symmetric])
    ultimately show ?thesis by simp
  qed
qed

lemma modInverse_certificate:
  assumes m: "1 < m" and v: "0 \<le> v" "v < m" and inv: "(a * v) mod m = 1"
  shows "modInverse a m = Inr v"
proof -
  define a0 where "a0 = a mod m"
  obtain g t where loop: "modInverse_loop a0 m 1 0 = (g, t)" by (cases "modInverse_loop a0 m 1 0")
  have a0: "0 \<le> a0" "a0 < m" unfolding a0_def using m by simp_all
  have "g = gcd a0 m \<and> (t * a) mod m = g mod m"
  proof (rule modInverse_loop_invariant [OF _ _ loop])
    show "0 \<le> a0" by (rule a0)
    show "0 \<le> m" using m by simp
    show "1 * a mod m = a0 mod m" by (simp add: a0_def)
    show "0 * a mod m = m mod m" by simp
  qed
  then have g: "g = gcd a0 m" and t: "(t * a) mod m = g mod m" by simp_all
  have "gcd a0 m dvd a0 * v" by simp
  moreover have "gcd a0 m dvd m" by simp
  moreover have "(a0 * v) mod m = 1" unfolding a0_def using inv by (simp add: mod_mult_left_eq)
  ultimately have "gcd a0 m dvd 1"
    using dvd_mod [of "gcd a0 m" "a0 * v" m] by simp
  then have g1: "g = 1" unfolding g using m by simp
  have "t mod m = (t * ((a * v) mod m)) mod m" using inv by simp
  also have "\<dots> = ((t * a) * v) mod m" by (simp add: mod_mult_right_eq mult.assoc)
  also have "\<dots> = (((t * a) mod m) * v) mod m" by (simp add: mod_mult_left_eq)
  also have "\<dots> = v mod m" using t g1 m by simp
  also have "\<dots> = v" using v by simp
  finally have tv: "t mod m = v" .
  have mj: "mod_js a m = a0" "mod_js t m = t mod m"
    using m by (simp_all add: mod_js_eq_mod a0_def)
  show ?thesis
    unfolding modInverse_def mj loop using g1 tv by (simp add: mj)
qed

subsection \<open>Point operations on the generator\<close>

lemma modInverse_2GY: "modInverse (2 * GY) P = Inr INV_2GY"
proof (rule modInverse_certificate)
  show "1 < P" by (rule P_gt_1)
  show "0 \<le> INV_2GY" by (simp add: INV_2GY_def)
  show "INV_2GY < P" by (simp add: INV_2GY_def P_def)
  show "(2 * GY) * INV_2GY mod P = 1"
  proof (rule mod_certificate)
    show "(2 * GY) * INV_2GY = 46935045790725648649267782968500640161152285907695229854005833192632722118801 * P + 1"
      by (simp add: GY_def P_def INV_2GY_def)
    show "(0::int) \<le> 1" by simp
    show "1 < P" by (rule P_gt_1)
  qed
qed

lemma slope_G: "(3 * GX * GX * INV_2GY) mod P = SLOPE_G"
proof (rule mod_certificate)
  show "3 * GX * GX * INV_2GY = 6534371175412604458958908912693048525839811796587982546211129043135405424530153901770406203935164968917121831102336830270909059548152185210409961777233761 * P + (SLOPE_G)"
    by (simp add: GX_def INV_2GY_def SLOPE_G_def P_def)
  show "0 \<le> SLOPE_G" by (simp add: GX_def INV_2GY_def SLOPE_G_def P_def)
  show "SLOPE_G < P" by (simp add: GX_def INV_2GY_def SLOPE_G_def P_def)
qed

lemma G2X_eq: "(SLOPE_G * SLOPE_G - 2 * GX) mod P = G2X"
proof (rule mod_certificate)
  show "SLOPE_G * SLOPE_G - 2 * GX = 72960544198751070137407653953064356484142421793117212772781213583140490307444 * P + (G2X)"
    by (simp add: GX_def SLOPE_G_def G2X_def P_def)
  show "0 \<le> G2X" by (simp add: GX_def SLOPE_G_def G2X_def P_def)
  show "G2X < P" by (simp add: GX_def SLOPE_G_def G2X_def P_def)
qed

lemma G2Y_eq: "(SLOPE_G * (GX - G2X) - GY) mod P = G2Y"
proof (rule mod_certificate)
  show "SLOPE_G * (GX - G2X) - GY = (- 27385395093115163030257761037380459032295473848319340750848160802454523403281) * P + (G2Y)"
    by (simp add: GX_def GY_def SLOPE_G_def G2X_def G2Y_def P_def)
  show "0 \<le> G2Y" by (simp add: GX_def GY_def SLOPE_G_def G2X_def G2Y_def P_def)
  show "G2Y < P" by (simp add: GX_def GY_def SLOPE_G_def G2X_def G2Y_def P_def)
qed

lemma modInverse_GX_G2X: "modInverse (GX - G2X) P = Inr INV_GX_G2X"
proof (rule modInverse_certificate)
  show "1 < P" by (rule P_gt_1)
  show "0 \<le> INV_GX_G2X" by (simp add: INV_GX_G2X_def)
  show "INV_GX_G2X < P" by (simp add: INV_GX_G2X_def P_def)
  show "(GX - G2X) * INV_GX_G2X mod P = 1"
  proof (rule mod_certificate)
    show "(GX - G2X) * INV_GX_G2X = (- 11242050938901424916690415314471865953127797679017871728615507175223515806480) * P + 1"
      by (simp add: GX_def G2X_def P_def INV_GX_G2X_def)
    show "(0::int) \<le> 1" by simp
    show "1 < P" by (rule P_gt_1)
  qed
qed

lemma slope_N: "((GY - (P - G2Y)) * INV_GX_G2X) mod P = SLOPE_N"
proof (rule mod_certificate)
  show "(GY - (P - G2Y)) * INV_GX_G2X = (- 23124065642140129821385402657926658586284661361862955363636802678941560360800) * P + (SLOPE_N)"
    by (simp add: GY_def G2Y_def INV_GX_G2X_def SLOPE_N_def P_def)
  show "0 \<le> SLOPE_N" by (simp add: GY_def G2Y_def INV_GX_G2X_def SLOPE_N_def P_def)
  show "SLOPE_N < P" by (simp add: GY_def G2Y_def INV_GX_G2X_def SLOPE_N_def P_def)
qed

lemma negGX_eq: "(SLOPE_N * SLOPE_N - G2X - GX) mod P = GX"
proof (rule mod_certificate)
  show "SLOPE_N * SLOPE_N - G2X - GX = 72960544198751070137407653953064356484142421793117212772781213583140490307444 * P + (GX)"
    by (simp add: GX_def SLOPE_N_def G2X_def P_def)
  show "0 \<le> GX" by (simp add: GX_def SLOPE_N_def G2X_def P_def)
  show "GX < P" by (simp add: GX_def SLOPE_N_def G2X_def P_def)
qed

lemma negGY_eq: "(SLOPE_N * (G2X - GX) - (P - G2Y)) mod P = P - GY"
proof (rule mod_certificate)
  show "SLOPE_N * (G2X - GX) - (P - G2Y) = 27385395093115163030257761037380459032295473848319340750848160802454523403279 * P + (P - GY)"
    by (simp add: GX_def GY_def SLOPE_N_def G2X_def G2Y_def P_def)
  show "0 \<le> P - GY" by (simp add: GX_def GY_def SLOPE_N_def G2X_def G2Y_def P_def)
  show "P - GY < P" by (simp add: GX_def GY_def SLOPE_N_def G2X_def G2Y_def P_def)
qed

lemma GY_nonzero: "GY \<noteq> 0" by (simp add: GY_def)

lemma double_G: "double G = Inr G2"
  using GY_nonzero P_pos
  by (simp add: double_def G_def G2_def modInverse_2GY bindE_def mod_js_eq_mod
      slope_G G2X_eq G2Y_eq)


lemma negate_G2: "negate G2 = Point (Some G2X) (Some (P - G2Y))"
  by (simp add: negate_def G2_def)

lemma negate_G: "negate G = Point (Some GX) (Some (P - GY))"
  by (simp add: negate_def G_def)

lemma GX_neq_G2X: "G2X \<noteq> GX" by (simp add: GX_def G2X_def)

lemma add_negate_G2_G: "add (negate G2) G = Inr (Point (Some GX) (Some (P - GY)))"
  using GX_neq_G2X P_pos
  by (simp add: add_def negate_G2 G_def equals_def isInfinity_def
      modInverse_GX_G2X bindE_def mod_js_eq_mod slope_N negGX_eq negGY_eq)

lemma add_infinity_left:
  "\<not> isInfinity p \<Longrightarrow> add infinity p = Inr p"
  by (cases p) (auto simp add: add_def equals_def isInfinity_def infinity_def)

lemma add_infinity_right:
  "\<not> isInfinity p \<Longrightarrow> add p infinity = Inr p"
  by (cases p) (auto simp add: add_def equals_def isInfinity_def infinity_def)

lemma G_affine: "\<not> isInfinity G"
  by (simp add: isInfinity_def G_def)

lemma multiply_loop_G_one: "multiply_loop G infinity 0 1 = Inr G"
proof -
  have "multiply_loop G infinity 0 1 = multiply_loop G2 G (Suc 0) 1"
    by (subst multiply_loop.simps) (simp add: add_infinity_left G_affine double_G bindE_def)
  also have "\<dots> = Inr G"
    by (subst multiply_loop.simps) simp
  finally show ?thesis .
qed

lemma multiply_G_one: "mod_js k Q = 1 \<Longrightarrow> multiply G k = Inr G"
proof -
  assume k: "mod_js k Q = 1"
  have "Point (px G) (py G) = G" by simp
  then show ?thesis by (simp add: multiply_def k multiply_loop_G_one)
qed



lemma GY_parity: "rem_js (P - GY) 2 \<noteq> 0" "rem_js GY 2 = 0"
  by (simp_all add: rem_js_def P_def GY_def)

lemma negate_negate_G: "negate (Point (Some GX) (Some (P - GY))) = G"
  by (simp add: negate_def G_def)

lemma py_G: "py G = Some GY"
  by (simp add: G_def)

lemma ComputeTweaks_sample:
  "ComputeTweaks 1 0 (negate G2) = Inr (G, - 1, 1)"
proof -
  have one: "multiply G 1 = Inr G"
    using Q_gt_2 by (intro multiply_G_one) (simp add: mod_js_eq_mod)
  have r: "rem_js (- 1) Q = - 1" using Q_gt_2 by (simp add: rem_js_def)
  show ?thesis
    by (simp add: ComputeTweaks_def one multiply_zero bindE_def add_negate_G2_G GY_parity
        negate_negate_G add_infinity_right G_affine py_G r)
qed

subsection \<open>The sample repair committee\<close>

lemma pow_loop_base_one:
  "1 < m \<Longrightarrow> \<bar>r\<bar> < m \<Longrightarrow> pow_loop r 1 e m = r"
proof (induction r "1::int" e m rule: pow_loop.induct)
  case (1 result exponent modulus)
  show ?case
  proof (cases "exponent > 0")
    case False
    then show ?thesis by (simp add: pow_loop.simps)
  next
    case True
    have one: "rem_js 1 modulus = 1" using "1.prems" by (simp add: rem_js_nonneg)
    have res: "rem_js result modulus = result"
      using "1.prems" by (simp add: rem_js_def sgn_if)
    show ?thesis
      using "1.hyps" [OF True] "1.prems" True one res
      by (subst pow_loop.simps) simp
  qed
qed

lemma Q_odd: "rem_js (Q - 2) 2 = 1"
  by (simp add: rem_js_def Q_def)

lemma pow_minus_one_Q: "pow (- 1) (Q - 2) Q = - 1"
proof -
  have r: "rem_js (- 1) Q = - 1" using Q_gt_2 by (simp add: rem_js_def)
  have "pow_loop 1 (- 1) (Q - 2) Q = pow_loop (- 1) 1 ((Q - 2) div 2) Q"
    using Q_gt_2 Q_odd r by (subst pow_loop.simps) (simp add: rem_js_def [of 1 Q])
  also have "\<dots> = - 1" using Q_gt_2 by (intro pow_loop_base_one) simp_all
  finally show ?thesis using Q_gt_2 r by (simp add: pow_def)
qed

lemma rem_js_small: "\<bar>a\<bar> < b \<Longrightarrow> rem_js a b = a"
  by (simp add: rem_js_def sgn_if)

lemma Q_gt_3: "3 < Q"
  by (simp add: Q_def)

lemma lagrange_helper1: "lagrangeCoefficient 1 [3] 0 (Some 2) = Inr 3"
  using Q_gt_3
  by (simp add: lagrangeCoefficient_def pow_minus_one_Q rem_js_def)

lemma lagrange_helper3: "lagrangeCoefficient 3 [1] 0 (Some 2) = Inr (- 1)"
  using Q_gt_2
  by (simp add: lagrangeCoefficient_def pow_one rem_js_def)

lemma final_share1: "rem_js (3 * SHARE1) Q = 1"
proof -
  have "(3 * SHARE1) mod Q = 1"
    by (rule mod_certificate [where k = 2]) (simp_all add: SHARE1_def Q_def)
  moreover have "0 \<le> 3 * SHARE1" by (simp add: SHARE1_def)
  ultimately show ?thesis using Q_pos by (simp add: rem_js_nonneg)
qed

lemma final_share3: "rem_js (- SHARE3) Q = 1 - Q"
  by (simp add: rem_js_def SHARE3_def Q_def)

lemma one_minus_Q: "mod_js (1 - Q) Q = 1"
proof -
  have "(1 - Q) mod Q = 1"
    using Q_gt_2 by (intro mod_certificate [where k = "- 1"]) simp_all
  then show ?thesis using Q_pos by (simp add: mod_js_eq_mod)
qed

lemma generateRepairShares_helper1:
  "generateRepairShares helper1 [3] 2 (\<lambda>k. 0) =
     (None, helper1\<lparr>repairShares := Some [0, 1],
                    repairShareCommitments := Some [infinity, G],
                    repairParticipants := Some [1, 3]\<rparr>)"
proof -
  have one: "multiply G 1 = Inr G"
    using Q_gt_2 by (intro multiply_G_one) (simp add: mod_js_eq_mod)
  show ?thesis
    by (simp add: generateRepairShares_def helper1_def new_Participant_def lagrange_helper1
        final_share1 multiply_zero one bindE_def)
qed

lemma generateRepairShares_helper3:
  "generateRepairShares helper3 [1] 2 (\<lambda>k. 0) =
     (None, helper3\<lparr>repairShares := Some [0, 1 - Q],
                    repairShareCommitments := Some [infinity, G],
                    repairParticipants := Some [1, 3]\<rparr>)"
proof -
  have one: "multiply G (1 - Q) = Inr G"
    by (intro multiply_G_one) (rule one_minus_Q)
  show ?thesis
    by (simp add: generateRepairShares_def helper3_def new_Participant_def lagrange_helper3
        final_share3 multiply_zero one bindE_def)
qed

subsection \<open>Hexadecimal encoding of a negative number\<close>

text \<open>
  \<^verbatim>\<open>z.toString(16)\<close> of a negative \<open>z\<close> starts with a minus sign; padded with
  zeros on the left and written as hexadecimal, decoding stops at the pair that holds
  the sign, and the buffer keeps its zeros.
\<close>

lemma hexval_zero: "hexval CHR ''0'' = Some 0"
  by (simp add: hexval_def)

lemma hexval_minus: "hexval CHR ''-'' = None"
  by (simp add: hexval_def)

lemma hexDecode_minus: "hexDecode (CHR ''-'' # rest) = []"
  by (cases rest) (simp_all add: hexval_minus)

lemma hexDecode_zero_minus: "hexDecode (CHR ''0'' # CHR ''-'' # rest) = []"
  by (simp add: hexval_minus hexval_zero)

lemma hexDecode_zero_pair: "hexDecode (CHR ''0'' # CHR ''0'' # s) = 0 # hexDecode s"
  by (simp add: hexval_zero)

lemma hexDecode_zeros_minus_even:
  "hexDecode (replicate (2 * j) CHR ''0'' @ CHR ''-'' # rest) = replicate j 0"
  by (induction j) (simp_all add: hexDecode_minus hexDecode_zero_pair del: hexDecode.simps)

lemma hexDecode_zeros_minus_odd:
  "hexDecode (replicate (Suc (2 * j)) CHR ''0'' @ CHR ''-'' # rest) = replicate j 0"
proof (induction j)
  case 0
  show ?case by (simp add: hexDecode_zero_minus del: hexDecode.simps)
next
  case (Suc j)
  have "replicate (Suc (2 * Suc j)) CHR ''0'' @ CHR ''-'' # rest
      = CHR ''0'' # CHR ''0'' # (replicate (Suc (2 * j)) CHR ''0'' @ CHR ''-'' # rest)"
    by simp
  then have "hexDecode (replicate (Suc (2 * Suc j)) CHR ''0'' @ CHR ''-'' # rest)
      = 0 # hexDecode (replicate (Suc (2 * j)) CHR ''0'' @ CHR ''-'' # rest)"
    by (simp only: hexDecode_zero_pair)
  then show ?case using Suc by simp
qed

lemma hexDecode_zeros_minus:
  "\<exists>j. hexDecode (replicate k CHR ''0'' @ CHR ''-'' # rest) = replicate j 0"
proof (cases "even k")
  case True
  then obtain j where "k = 2 * j" by (elim evenE)
  then show ?thesis using hexDecode_zeros_minus_even by blast
next
  case False
  then obtain j where "k = Suc (2 * j)" by (elim oddE) simp
  then show ?thesis using hexDecode_zeros_minus_odd by blast
qed

lemma hexDecode_zeros: "hexDecode (replicate (2 * j) CHR ''0'') = replicate j 0"
proof (induction j)
  case 0
  show ?case by simp
next
  case (Suc j)
  then show ?case by (simp add: hexDecode_zero_pair del: hexDecode.simps)
qed

lemma allocWriteHex_zeros:
  "hexDecode s = replicate j 0 \<Longrightarrow> allocWriteHex n s = replicate n 0"
  by (simp add: allocWriteHex_def Let_def min_def replicate_add [symmetric])

lemma allocWriteHex_negative:
  "z < 0 \<Longrightarrow> allocWriteHex n (padStart (toString16 z) k CHR ''0'') = replicate n 0"
proof -
  assume "z < 0"
  then have "padStart (toString16 z) k CHR ''0''
      = replicate (k - length (toString16 z)) CHR ''0'' @ CHR ''-'' # hex_of_nat (nat (- z))"
    by (simp add: padStart_def toString16_def)
  then obtain j where "hexDecode (padStart (toString16 z) k CHR ''0'') = replicate j 0"
    using hexDecode_zeros_minus by metis
  then show ?thesis by (rule allocWriteHex_zeros)
qed

lemma allocWriteHex_zero:
  "allocWriteHex 32 (padStart (toString16 0) 64 CHR ''0'') = replicate 32 0"
proof -
  have "(64::nat) = Suc 63" by simp
  then have "replicate 64 CHR ''0'' = CHR ''0'' # replicate 63 CHR ''0''"
    by (simp only: replicate_Suc)
  then have "padStart (toString16 0) 64 CHR ''0'' = replicate (2 * 32) CHR ''0''"
    by (simp add: padStart_def toString16_def hex_of_nat.simps hexdigit_def
        replicate_append_same)
  then have "hexDecode (padStart (toString16 0) 64 CHR ''0'') = replicate 32 0"
    by (simp only: hexDecode_zeros)
  then show ?thesis by (rule allocWriteHex_zeros)
qed

lemma challengeHash_range:
  "challengeHash R K m = Inr c \<Longrightarrow> 0 \<le> c \<and> c < Q"
  using Q_pos
  by (auto simp add: challengeHash_def bindE_def Let_def rem_js_nonneg be_to_int_nonneg
      split: sum.splits)


lemma signature_tweaked_zero_share:
  assumes "tweak a = Some (- 1)" and "tweakedKey a = Some K"
  shows "signature a [0] =
     bindE (groupCommitment (message a) (nonceCommitmentPairs a) (participantIndexes a)) (\<lambda>R.
     bindE (challengeHash R K (message a)) (\<lambda>c.
     bindE (xonlySerialize R) (\<lambda>nb. Inr (nb @ replicate 32 0))))"
proof -
  have z0: "rem_js 0 Q = 0" by (simp add: rem_js_def)
  have enc: "allocWriteHex 32 (padStart (toString16 (rem_js (- c) Q)) 64 CHR ''0'') = replicate 32 0"
    if "challengeHash R K (message a) = Inr c" for R c
  proof -
    from that have c: "0 \<le> c" "c < Q" using challengeHash_range by blast+
    then have r: "rem_js (- c) Q = - c" by (intro rem_js_small) simp
    show ?thesis
    proof (cases "c = 0")
      case True
      then show ?thesis by (simp add: z0 allocWriteHex_zero)
    next
      case False
      with c have "- c < 0" by simp
      then show ?thesis unfolding r by (rule allocWriteHex_negative)
    qed
  qed
  have inner: "bindE (bindE (challengeHash R K (message a)) (\<lambda>c. Inr (rem_js (- c) Q))) (\<lambda>z.
           bindE (xonlySerialize R) (\<lambda>nb.
             Inr (nb @ allocWriteHex 32 (padStart (toString16 z) 64 CHR ''0''))))
       = bindE (challengeHash R K (message a)) (\<lambda>c.
           bindE (xonlySerialize R) (\<lambda>nb. Inr (nb @ replicate 32 0)))" for R
  proof (cases "challengeHash R K (message a)")
    case (Inl e)
    then show ?thesis by (simp add: bindE_def)
  next
    case (Inr c)
    then show ?thesis using enc [OF Inr] by (simp add: bindE_def split: sum.splits)
  qed
  show ?thesis
    unfolding signature_def Let_def
    by (simp add: assms z0 inner)
qed

subsection \<open>The proof of knowledge of the secret 0\<close>

text \<open>
  For the secret 0 the secret commitment is the point at infinity, and
  \<^verbatim>\<open>computeProofOfKnowledge\<close> throws when it serializes it: no proof is produced.
\<close>

lemma secSerialize_infinity: "secSerialize infinity = Inl SerializeInfinity"
  by (simp add: secSerialize_def infinity_def)

lemma computeProofOfKnowledge_zero_secret:
  "coefficients p = Some (0 # cs) \<Longrightarrow> 0 \<le> index p \<Longrightarrow> index p \<le> 255 \<Longrightarrow>
   multiply G nonce = Inr R \<Longrightarrow>
   computeProofOfKnowledge p nonce = (Some SerializeInfinity, p)"
  by (simp add: computeProofOfKnowledge_def bindE_def writeUInt8_def multiply_zero
      secSerialize_infinity)

subsection \<open>The sign of the truncating remainder\<close>

lemma rem_js_nonpos: "0 < b \<Longrightarrow> a \<le> 0 \<Longrightarrow> rem_js a b \<le> 0"
  by (simp add: rem_js_def sgn_if)

lemma rem_js_sign_nonneg: "0 < b \<Longrightarrow> 0 \<le> a \<Longrightarrow> 0 \<le> rem_js a b"
  by (simp add: rem_js_def sgn_if)

lemma pow_loop_nonpos:
  "0 < m \<Longrightarrow> r \<le> 0 \<Longrightarrow> 0 \<le> b \<Longrightarrow> pow_loop r b e m \<le> 0"
proof (induction r b e m rule: pow_loop.induct)
  case (1 result base exponent modulus)
  show ?case
  proof (cases "exponent > 0")
    case False
    then show ?thesis using "1.prems" by (simp add: pow_loop.simps)
  next
    case True
    have "result * base \<le> 0" using "1.prems" by (simp add: mult_nonpos_nonneg)
    then have a: "rem_js (result * base) modulus \<le> 0"
      using "1.prems" by (intro rem_js_nonpos) simp_all
    have b: "0 \<le> rem_js (base * base) modulus"
      using "1.prems" by (intro rem_js_sign_nonneg) simp_all
    show ?thesis
      using "1.IH" [OF True] "1.prems" True a b by (subst pow_loop.simps) simp
  qed
qed

lemma pow_nonpos_odd:
  assumes m: "1 < m" and b: "b \<le> 0" and e: "rem_js e 2 = 1"
  shows "pow b e m \<le> 0"
proof -
  have pos: "0 < e" using e by (cases "0 < e") (auto simp add: rem_js_def sgn_if split: if_splits)
  have rb: "rem_js b m \<le> 0" using b m by (intro rem_js_nonpos) simp_all
  have a: "rem_js (1 * rem_js b m) m \<le> 0" using rb m by (intro rem_js_nonpos) simp_all
  have sq: "0 \<le> rem_js (rem_js b m * rem_js b m) m"
    using m by (intro rem_js_sign_nonneg) simp_all
  have "pow_loop 1 (rem_js b m) e m =
          pow_loop (rem_js (1 * rem_js b m) m) (rem_js (rem_js b m * rem_js b m) m) (e div 2) m"
    using pos e by (subst pow_loop.simps) simp
  also have "\<dots> \<le> 0" using m a sq by (intro pow_loop_nonpos) simp_all
  finally show ?thesis using m by (simp add: pow_def)
qed

lemma truncated_value:
  assumes Q: "0 < (q::int)" and b: "- q < r" "r < q" and c: "r mod q = X mod q"
    and s1: "0 \<le> (s::int) \<Longrightarrow> 0 \<le> r" and s2: "s < 0 \<Longrightarrow> r \<le> 0"
  shows "r = (if 0 \<le> s then X mod q else - ((- X) mod q))"
proof (cases "0 \<le> s")
  case True
  then have "0 \<le> r" by (rule s1)
  then have "r mod q = r" using b by simp
  with c True show ?thesis by simp
next
  case False
  then have "s < 0" by simp
  then have "r \<le> 0" by (rule s2)
  then have "(- r) mod q = - r" using b by simp
  moreover have "(- r) mod q = (- X) mod q" using c by (metis mod_minus_eq)
  ultimately show ?thesis using False by simp
qed

lemma lagrange_sign:
  assumes "r = rem_js (num * pow den (Q - 2) Q) Q"
  shows "(0 \<le> num * den \<longrightarrow> 0 \<le> r) \<and> (num * den < 0 \<longrightarrow> r \<le> 0)"
proof -
  define p where "p = pow den (Q - 2) Q"
  have p1: "0 \<le> den \<Longrightarrow> 0 \<le> p" unfolding p_def using Q_gt_2 by (intro pow_nonneg) simp_all
  have p2: "den \<le> 0 \<Longrightarrow> p \<le> 0" unfolding p_def using Q_gt_2 Q_odd by (intro pow_nonpos_odd) simp_all
  have r: "r = rem_js (num * p) Q" using assms by (simp add: p_def)
  show ?thesis
  proof (intro conjI impI)
    assume a: "0 \<le> num * den"
    have "0 \<le> num * p"
    proof (cases "0 < den")
      case True
      with a have "0 \<le> num" by (simp add: zero_le_mult_iff)
      moreover have "0 \<le> p" using True p1 by simp
      ultimately show ?thesis by simp
    next
      case False
      show ?thesis
      proof (cases "den = 0")
        case True
        then have "p = 0" using p1 p2 by force
        then show ?thesis by simp
      next
        case False
        with \<open>\<not> 0 < den\<close> have d: "den < 0" by simp
        with a have "num \<le> 0" by (simp add: zero_le_mult_iff)
        moreover have "p \<le> 0" using d p2 by simp
        ultimately show ?thesis by (simp add: mult_nonpos_nonpos)
      qed
    qed
    then show "0 \<le> r" unfolding r using Q_pos by (intro rem_js_sign_nonneg) simp_all
  next
    assume a: "num * den < 0"
    have "num * p \<le> 0"
    proof (cases "0 < den")
      case True
      with a have "num < 0" by (simp add: mult_less_0_iff)
      moreover have "0 \<le> p" using True p1 by simp
      ultimately show ?thesis by (simp add: mult_nonpos_nonneg)
    next
      case False
      with a have "den < 0 \<and> 0 < num" by (auto simp add: mult_less_0_iff)
      moreover then have "p \<le> 0" using p2 by simp
      ultimately show ?thesis by (simp add: mult_nonneg_nonpos)
    qed
    then show "r \<le> 0" unfolding r using Q_pos by (intro rem_js_nonpos) simp_all
  qed
qed

lemma minus_one_power_Q: "(- 1::int) ^ nat (Q - 2) = - 1"
proof -
  have "odd (nat (Q - 2))" by (simp add: Q_def)
  then show ?thesis by simp
qed

subsection \<open>The first failure of a sequence\<close>



section \<open>C2: repair of a lost share\<close>

text \<open>
  C2 fails on the code. \<^verbatim>\<open>generateRepairShares(repairParticipants, index)\<close> calls
  \<^verbatim>\<open>_lagrangeCoefficient(repairParticipants, 0n, BigInt(index))\<close>: the coefficient
  at \<open>x = 0\<close> of the participant to repair, not the coefficient at \<open>x = index\<close> of
  the helper. In the 2-of-3 sharing of \<open>1 + A1 \<cdot> X\<close>, helpers 1 and 3 hold the values
  at 1 and 3; with all random draws 0 the protocol gives participant 2 the share
  \<open>2 - Q\<close>, which is 2 modulo \<open>Q\<close> (twice the constant term), not the value
  \<open>SHARE2\<close> of the polynomial at 2.
\<close>

theorem repair_protocol_sample:
  "evaluatePolynomial (Some [1, A1]) 1 = Inr SHARE1 \<and>
   evaluatePolynomial (Some [1, A1]) 2 = Inr SHARE2 \<and>
   evaluatePolynomial (Some [1, A1]) 3 = Inr SHARE3 \<and>
   repair_protocol [helper1, helper3] (\<lambda>h k. 0) lost2 = Inr (lost2\<lparr>aggregateShare := Some (2 - Q)\<rparr>) \<and>
   (2 - Q) mod Q \<noteq> SHARE2"
proof -
  have e1: "evaluatePolynomial (Some [1, A1]) 1 = Inr SHARE1"
    by (simp add: evaluatePolynomial_def rem_js_def A1_def SHARE1_def Q_def)
  have e2: "evaluatePolynomial (Some [1, A1]) 2 = Inr SHARE2"
    by (simp add: evaluatePolynomial_def rem_js_def A1_def SHARE2_def Q_def)
  have e3: "evaluatePolynomial (Some [1, A1]) 3 = Inr SHARE3"
    by (simp add: evaluatePolynomial_def rem_js_def A1_def SHARE3_def Q_def)
  have i: "index helper1 = 1" "index helper3 = 3" "index lost2 = 2"
    by (simp_all add: helper1_def helper3_def lost2_def new_Participant_def)
  have t: "threshold helper1 = 2" "threshold helper3 = 2" "threshold lost2 = 2"
    "aggregateShare lost2 = None"
    by (simp_all add: helper1_def helper3_def lost2_def new_Participant_def)
  have a: "rem_js (2 - Q) Q = 2 - Q" using Q_gt_3 by (intro rem_js_small) simp
  have z: "rem_js 0 Q = 0" by (simp add: rem_js_def)
  have run: "repair_protocol [helper1, helper3] (\<lambda>h k. 0) lost2
      = Inr (lost2\<lparr>aggregateShare := Some (2 - Q)\<rparr>)"
    by (simp add: repair_protocol_def i t generateRepairShares_helper1
        generateRepairShares_helper3 returned_def bindE_def getRepairShare_def
        defined_value_def aggregateRepairShares_def repairShare_def a z)
  have "(2 - Q) mod Q = 2"
    using Q_gt_3 by (intro mod_certificate [where k = "- 1"]) simp_all
  then have ne: "(2 - Q) mod Q \<noteq> SHARE2" by (simp add: SHARE2_def)
  from e1 e2 e3 run ne show ?thesis by simp
qed

section \<open>C3: the Lagrange coefficient\<close>

text \<open>
  C3, as amended. For a list \<open>S\<close> with a repeated index
  \<^verbatim>\<open>_lagrangeCoefficient\<close> fails with the duplicate-index error. For a list of
  pairwise distinct indexes, write \<open>N\<close> for the product of the \<open>x - j\<close> and \<open>D\<close>
  for the product of the \<open>i - j\<close>, both over the \<open>j\<close> of \<open>S\<close> other than \<open>i\<close>.
  The call returns an integer \<open>r\<close> strictly between \<open>-Q\<close> and \<open>Q\<close> that is
  congruent modulo \<open>Q\<close> to \<open>N\<close> times the \<open>(Q - 2)\<close>-th power of \<open>D\<close> and
  has the sign the truncating \<^verbatim>\<open>%\<close> gives it, which is the sign of \<open>N \<cdot> D\<close>:
  when \<open>N \<cdot> D\<close> is not negative, \<open>r\<close> is the residue in \<open>[0, Q)\<close>; when
  \<open>N \<cdot> D\<close> is negative, \<open>r\<close> is the representative in \<open>(-Q, 0]\<close>, the residue
  less \<open>Q\<close> unless the residue is 0.
\<close>

theorem lagrangeCoefficient_truncated:
  "(\<not> distinct S \<longrightarrow> lagrangeCoefficient this_index S x pidx = Inl DuplicateIndexes) \<and>
   (distinct S \<longrightarrow>
      (let i = (case pidx of None \<Rightarrow> this_index | Some k \<Rightarrow> k);
           N = (\<Prod>j \<in> set S - {i}. x - j);
           D = (\<Prod>j \<in> set S - {i}. i - j)
       in \<exists>r. lagrangeCoefficient this_index S x pidx = Inr r \<and> - Q < r \<and> r < Q \<and>
              r mod Q = (N * D ^ nat (Q - 2)) mod Q \<and>
              (0 \<le> N * D \<longrightarrow> 0 \<le> r) \<and> (N * D < 0 \<longrightarrow> r \<le> 0) \<and>
              r = (if 0 \<le> N * D then (N * D ^ nat (Q - 2)) mod Q
                   else - ((- (N * D ^ nat (Q - 2))) mod Q))))"
proof (intro conjI impI)
  assume "\<not> distinct S"
  then show "lagrangeCoefficient this_index S x pidx = Inl DuplicateIndexes"
    by (simp add: lagrangeCoefficient_def card_set_distinct)
next
  assume d: "distinct S"
  define i where "i = (case pidx of None \<Rightarrow> this_index | Some k \<Rightarrow> k)"
  define num where "num = prod_list (map (\<lambda>j. x - j) (filter (\<lambda>j. j \<noteq> i) S))"
  define den where "den = prod_list (map (\<lambda>j. i - j) (filter (\<lambda>j. j \<noteq> i) S))"
  define r where "r = rem_js (num * pow den (Q - 2) Q) Q"
  have fset: "set (filter (\<lambda>j. j \<noteq> i) S) = set S - {i}" by auto
  have fd: "distinct (filter (\<lambda>j. j \<noteq> i) S)" using d by simp
  have num_set: "num = (\<Prod>j \<in> set S - {i}. x - j)"
    unfolding num_def using prod.distinct_set_conv_list [OF fd, of "\<lambda>j. x - j"] fset by simp
  have den_set: "den = (\<Prod>j \<in> set S - {i}. i - j)"
    unfolding den_def using prod.distinct_set_conv_list [OF fd, of "\<lambda>j. i - j"] fset by simp
  have res: "lagrangeCoefficient this_index S x pidx = Inr r"
    using d by (simp add: lagrangeCoefficient_def card_set_distinct lagrange_loop_eq
        r_def num_def den_def i_def Let_def)
  have "\<bar>r\<bar> < \<bar>Q\<bar>" unfolding r_def using rem_js_abs_less [of Q] Q_pos by simp
  then have bounds: "- Q < r" "r < Q" using Q_pos by linarith+
  have "r mod Q = (num * pow den (Q - 2) Q) mod Q"
    unfolding r_def using Q_pos by (rule rem_js_mod)
  also have "\<dots> = (num * (pow den (Q - 2) Q mod Q)) mod Q"
    by (simp add: mod_mult_right_eq)
  also have "\<dots> = (num * (den ^ nat (Q - 2) mod Q)) mod Q"
    using pow_mod [of Q den "Q - 2"] Q_gt_2 by simp
  also have "\<dots> = (num * den ^ nat (Q - 2)) mod Q"
    by (simp add: mod_mult_right_eq)
  finally have cong: "r mod Q = (num * den ^ nat (Q - 2)) mod Q" .
  have sign: "0 \<le> num * den \<longrightarrow> 0 \<le> r" "num * den < 0 \<longrightarrow> r \<le> 0"
    using lagrange_sign [OF r_def] by simp_all
  have val: "r = (if 0 \<le> num * den then (num * den ^ nat (Q - 2)) mod Q
                  else - ((- (num * den ^ nat (Q - 2))) mod Q))"
    using Q_pos bounds cong sign by (intro truncated_value) simp_all
  have "\<exists>r. lagrangeCoefficient this_index S x pidx = Inr r \<and> - Q < r \<and> r < Q \<and>
              r mod Q = (num * den ^ nat (Q - 2)) mod Q \<and>
              (0 \<le> num * den \<longrightarrow> 0 \<le> r) \<and> (num * den < 0 \<longrightarrow> r \<le> 0) \<and>
              r = (if 0 \<le> num * den then (num * den ^ nat (Q - 2)) mod Q
                   else - ((- (num * den ^ nat (Q - 2))) mod Q))"
    using res bounds cong sign val by blast
  then show "let i = (case pidx of None \<Rightarrow> this_index | Some k \<Rightarrow> k);
           N = (\<Prod>j \<in> set S - {i}. x - j);
           D = (\<Prod>j \<in> set S - {i}. i - j)
       in \<exists>r. lagrangeCoefficient this_index S x pidx = Inr r \<and> - Q < r \<and> r < Q \<and>
              r mod Q = (N * D ^ nat (Q - 2)) mod Q \<and>
              (0 \<le> N * D \<longrightarrow> 0 \<le> r) \<and> (N * D < 0 \<longrightarrow> r \<le> 0) \<and>
              r = (if 0 \<le> N * D then (N * D ^ nat (Q - 2)) mod Q
                   else - ((- (N * D ^ nat (Q - 2))) mod Q))"
    unfolding Let_def num_set den_set i_def .
qed

text \<open>
  The theorem at a list with a repeated index, at the quorum \<open>[1, 2]\<close> for
  participant 1, where \<open>N = -2\<close> and \<open>D = -1\<close>, and at the quorum \<open>[1, 2, 3]\<close>
  for participant 2, where \<open>N = 3\<close> and \<open>D = -1\<close>.
\<close>

theorem lagrangeCoefficient_truncated_witness:
  "lagrangeCoefficient 1 [1, 1] 0 (Some 1) = Inl DuplicateIndexes \<and>
   lagrangeCoefficient 1 [1, 2] 0 (Some 1) = Inr 2 \<and>
   lagrangeCoefficient 2 [1, 2, 3] 0 None = Inr (- 3)"
proof -
  have s: "{1, 2::int} - {1} = {2}" "{1, 2, 3::int} - {2} = {1, 3}" by auto
  have m: "(2::int) mod Q = 2" "(3::int) mod Q = 3" using Q_gt_3 by simp_all
  show ?thesis
    using lagrangeCoefficient_truncated [of "[1, 1]" 1 0 "Some 1"]
      lagrangeCoefficient_truncated [of "[1, 2]" 1 0 "Some 1"]
      lagrangeCoefficient_truncated [of "[1, 2, 3]" 2 0 None]
    by (simp add: Let_def s m minus_one_power_Q)
qed

text \<open>
  The claim as stated asks for a result in \<open>[0, Q)\<close>. For participant 2 in the quorum
  \<open>[1, 2]\<close> at \<open>x = 0\<close> the numerator is \<open>0 - 1\<close>, the denominator \<open>2 - 1\<close>, and
  the result is \<open>-1\<close>.
\<close>

theorem lagrangeCoefficient_negative_counterexample:
  "lagrangeCoefficient 2 [1, 2] 0 (Some 2) = Inr (- 1)"
  using Q_gt_2 by (simp add: lagrangeCoefficient_def pow_one rem_js_def)

section \<open>C4: the tweaks\<close>

text \<open>
  C4 fails on the code in the range of the tweak. For the public key \<open>-2G\<close>, the BIP-32
  tweak 1 and the Taproot tweak 0, the key \<open>-2G + G = -G\<close> has an odd ordinate, so the
  key is negated to \<open>G\<close>, the parity is 1 and the BIP-32 tweak becomes \<open>-1\<close>; the
  ordinate of the tweaked key \<open>G\<close> is even, so the aggregate tweak returned is
  \<^verbatim>\<open>(-1n + 0n) % Q\<close>, which is \<open>-1\<close> and not a scalar of \<open>[0, Q)\<close>.
\<close>

theorem ComputeTweaks_negative_tweak:
  "ComputeTweaks 1 0 (Point (Some G2X) (Some (P - G2Y))) = Inr (G, - 1, 1)"
  using ComputeTweaks_sample by (simp add: negate_G2)

section \<open>C5: the signature bytes\<close>

text \<open>
  C5 fails on the code when the tweak is negative, which \<^verbatim>\<open>ComputeTweaks\<close> makes it
  for the public key \<open>-2G\<close> and the tweaks 1 and 0 (see C4). The constructor stores the
  tweaked key \<open>G\<close> and the tweak \<open>-1\<close>. For the share list \<open>[0]\<close>, whatever the
  message and the nonce commitments, \<^verbatim>\<open>signature\<close> computes
  \<^verbatim>\<open>z = (0n + c * -1n) % Q\<close>, which is \<open>-c\<close>, and the hexadecimal write of its text
  leaves the last 32 bytes zero, where the claim has them encode \<open>(0 - c) mod Q\<close>.
\<close>

theorem signature_negative_tweak:
  "new_Aggregator (Point (Some G2X) (Some (P - G2Y))) msg pairs idxs (Some 1) (Some 0) =
     Inr \<lparr>aggregator.publicKey = Point (Some G2X) (Some (P - G2Y)), message = msg,
          nonceCommitmentPairs = pairs, participantIndexes = idxs,
          tweakedKey = Some G, tweak = Some (- 1)\<rparr> \<and>
   signature \<lparr>aggregator.publicKey = Point (Some G2X) (Some (P - G2Y)), message = msg,
          nonceCommitmentPairs = pairs, participantIndexes = idxs,
          tweakedKey = Some G, tweak = Some (- 1)\<rparr> [0] =
     bindE (groupCommitment msg pairs idxs) (\<lambda>R.
     bindE (challengeHash R G msg) (\<lambda>c.
     bindE (xonlySerialize R) (\<lambda>nb. Inr (nb @ replicate 32 0))))"
proof -
  have "ComputeTweaks 1 0 (Point (Some G2X) (Some (P - G2Y))) = Inr (G, - 1, 1)"
    using ComputeTweaks_sample by (simp add: negate_G2)
  then have a: "new_Aggregator (Point (Some G2X) (Some (P - G2Y))) msg pairs idxs (Some 1) (Some 0) =
     Inr \<lparr>aggregator.publicKey = Point (Some G2X) (Some (P - G2Y)), message = msg,
          nonceCommitmentPairs = pairs, participantIndexes = idxs,
          tweakedKey = Some G, tweak = Some (- 1)\<rparr>"
    by (simp add: new_Aggregator_def bindE_def)
  have b: "signature \<lparr>aggregator.publicKey = Point (Some G2X) (Some (P - G2Y)), message = msg,
          nonceCommitmentPairs = pairs, participantIndexes = idxs,
          tweakedKey = Some G, tweak = Some (- 1)\<rparr> [0] =
     bindE (groupCommitment msg pairs idxs) (\<lambda>R.
     bindE (challengeHash R G msg) (\<lambda>c.
     bindE (xonlySerialize R) (\<lambda>nb. Inr (nb @ replicate 32 0))))"
    using signature_tweaked_zero_share
      [of "\<lparr>aggregator.publicKey = Point (Some G2X) (Some (P - G2Y)), message = msg,
          nonceCommitmentPairs = pairs, participantIndexes = idxs,
          tweakedKey = Some G, tweak = Some (- 1)\<rparr>" G]
    by simp
  from a b show ?thesis by simp
qed

section \<open>C7: SEC1 deserialization\<close>

text \<open>
  C7, as amended. \<^verbatim>\<open>Point.secDeserialize\<close> fails with the invalid-input error exactly
  when the decoded input is not 33 bytes long; the first byte is never rejected. On 33
  bytes it reads \<open>x\<close> from the last 32 bytes, computes
  \<open>y = ((x\<^sup>3 + 7) mod P) ^ ((P + 1) / 4) mod P\<close> and returns the point \<open>(x, y')\<close>
  where \<open>y'\<close> is \<open>y\<close> or \<open>(P - y) mod P\<close>, lies in \<open>[0, P)\<close>, is even when the
  first byte is \<open>0x02\<close>, and is odd for every other first byte unless \<open>y = 0\<close>.
\<close>

theorem secDeserialize_length_only:
  "let bytes = hexDecode s;
       x = be_to_int (tl bytes);
       y = pow ((x ^ 3 + 7) mod P) ((P + 1) div 4) P
   in (length bytes \<noteq> 33 \<longrightarrow> secDeserialize s = Inl InvalidSecInput) \<and>
      (length bytes = 33 \<longrightarrow>
         (\<exists>y'. secDeserialize s = Inr (Point (Some x) (Some y')) \<and>
               (y' = y \<or> y' = (P - y) mod P) \<and> 0 \<le> y' \<and> y' < P \<and>
               (hd bytes = 0x02 \<longrightarrow> even y') \<and>
               (hd bytes \<noteq> 0x02 \<and> y \<noteq> 0 \<longrightarrow> odd y')))"
proof -
  define bytes where "bytes = hexDecode s"
  define x where "x = be_to_int (tl bytes)"
  define y where "y = pow ((x ^ 3 + 7) mod P) ((P + 1) div 4) P"
  define np where "np = rem_js (P - y) P"
  define y' where "y' = (if even y
                  then (if hd bytes = 0x02 then y else np)
                  else (if hd bytes = 0x02 then np else y))"
  have x0: "0 \<le> x" unfolding x_def by (rule be_to_int_nonneg)
  then have ysq: "rem_js (x ^ 3 + 7) P = (x ^ 3 + 7) mod P"
    using P_pos by (simp add: rem_js_nonneg)
  have d4: "div_js (P + 1) 4 = (P + 1) div 4"
    using P_pos by (simp add: div_js_def sgn_if)
  have y0: "0 \<le> y" unfolding y_def using P_gt_1 P_pos by (simp add: pow_nonneg)
  have yP: "y < P" unfolding y_def using pow_abs_less [OF P_gt_1] by (smt (verit))
  have np_mod: "np = (P - y) mod P"
    unfolding np_def using y0 yP P_pos by (intro rem_js_nonneg) linarith+
  have np_zero: "y = 0 \<Longrightarrow> np = 0" by (simp add: np_mod)
  have np_pos: "y \<noteq> 0 \<Longrightarrow> np = P - y"
  proof -
    assume "y \<noteq> 0"
    then have "0 \<le> P - y" "P - y < P" using y0 yP by linarith+
    then have "(P - y) mod P = P - y" by (rule mod_pos_pos_trivial)
    then show ?thesis by (simp only: np_mod)
  qed
  have fail: "length bytes \<noteq> 33 \<Longrightarrow> secDeserialize s = Inl InvalidSecInput"
    by (simp add: secDeserialize_def bytes_def)
  have ok: "length bytes = 33 \<Longrightarrow> secDeserialize s = Inr (Point (Some x) (Some y'))"
    by (simp add: secDeserialize_def bytes_def [symmetric] Let_def ysq d4 x_def [symmetric]
        y_def [symmetric] np_def [symmetric] y'_def rem_js_2_eq_0)
  have cases: "y' = y \<or> y' = (P - y) mod P"
    unfolding np_mod [symmetric] by (simp add: y'_def)
  have np_range: "0 \<le> np" "np < P"
    using np_zero np_pos y0 yP P_pos by (cases "y = 0"; simp)+
  have range: "0 \<le> y'" "y' < P"
    using y0 yP np_range by (simp_all add: y'_def)
  have ev: "hd bytes = 0x02 \<Longrightarrow> even y'"
    using P_odd np_pos by (cases "y = 0") (auto simp add: y'_def)
  have od: "hd bytes \<noteq> 0x02 \<Longrightarrow> y \<noteq> 0 \<Longrightarrow> odd y'"
    using P_odd np_pos by (auto simp add: y'_def)
  show ?thesis
    unfolding Let_def bytes_def [symmetric] x_def [symmetric] y_def [symmetric]
    using fail ok cases range ev od by blast
qed

text \<open>
  The theorem at a one-byte input, and at the encodings of the curve points
  \<open>(X1, 1)\<close> and \<open>(X1, P - 1)\<close>.
\<close>

theorem secDeserialize_length_only_witness:
  "secDeserialize ''02'' = Inl InvalidSecInput \<and>
   secDeserialize ''031fe1e5ef3fceb5c135ab7741333ce5a6e80d68167653f6b2b24bcbcfaaaff507'' = Inr (Point (Some X1) (Some 1)) \<and>
   secDeserialize ''021fe1e5ef3fceb5c135ab7741333ce5a6e80d68167653f6b2b24bcbcfaaaff507'' = Inr (Point (Some X1) (Some (P - 1)))"
proof -
  have a: "secDeserialize ''02'' = Inl InvalidSecInput"
    using secDeserialize_length_only [of "''02''"] by (simp add: hexval_def)
  have "\<exists>y'. secDeserialize ''031fe1e5ef3fceb5c135ab7741333ce5a6e80d68167653f6b2b24bcbcfaaaff507'' = Inr (Point (Some X1) (Some y')) \<and>
          (y' = 1 \<or> y' = P - 1) \<and> odd y'"
    using secDeserialize_length_only [of "''031fe1e5ef3fceb5c135ab7741333ce5a6e80d68167653f6b2b24bcbcfaaaff507''"]
    unfolding Let_def hexDecode_03
    by (simp add: length_X1_bytes be_to_int_X1_bytes X1_cube pow_1_P P_minus_1_mod) blast
  then have b: "secDeserialize ''031fe1e5ef3fceb5c135ab7741333ce5a6e80d68167653f6b2b24bcbcfaaaff507'' = Inr (Point (Some X1) (Some 1))"
    using P_odd by auto
  have "\<exists>y'. secDeserialize ''021fe1e5ef3fceb5c135ab7741333ce5a6e80d68167653f6b2b24bcbcfaaaff507'' = Inr (Point (Some X1) (Some y')) \<and>
          (y' = 1 \<or> y' = P - 1) \<and> even y'"
    using secDeserialize_length_only [of "''021fe1e5ef3fceb5c135ab7741333ce5a6e80d68167653f6b2b24bcbcfaaaff507''"]
    unfolding Let_def hexDecode_02
    by (simp add: length_X1_bytes be_to_int_X1_bytes X1_cube pow_1_P P_minus_1_mod) blast
  then have c: "secDeserialize ''021fe1e5ef3fceb5c135ab7741333ce5a6e80d68167653f6b2b24bcbcfaaaff507'' = Inr (Point (Some X1) (Some (P - 1)))"
    by auto
  from a b c show ?thesis by simp
qed

text \<open>
  The claim as stated has the call fail when the first byte is neither \<open>0x02\<close> nor
  \<open>0x03\<close>. With the first byte \<open>0x05\<close> the call returns the point of odd ordinate.
\<close>

theorem secDeserialize_prefix_counterexample:
  "secDeserialize ''051fe1e5ef3fceb5c135ab7741333ce5a6e80d68167653f6b2b24bcbcfaaaff507'' = Inr (Point (Some X1) (Some 1))"
proof -
  have x0: "0 \<le> X1 ^ 3 + 7" by (simp add: X1_def)
  have sq: "rem_js (X1 ^ 3 + 7) P = 1"
    using rem_js_nonneg [OF x0 P_pos] X1_cube by simp
  have odd1: "rem_js 1 2 \<noteq> 0" by (simp add: rem_js_def)
  show ?thesis
    unfolding secDeserialize_def Let_def hexDecode_05
    by (simp add: length_X1_bytes be_to_int_X1_bytes sq pow_1_P odd1)
qed

section \<open>C8: the binding value\<close>




section \<open>C9: coefficient commitments from one verification share\<close>

text \<open>
  C9 fails on the code for \<open>t = 1\<close>. The adjugate of the 1-by-1 Vandermonde matrix
  \<open>[[1]]\<close> is computed from the determinant of the matrix without rows, for which
  \<^verbatim>\<open>determinant()\<close> returns 0 (no branch fits and the loop does not run). The inverse
  is therefore \<open>[[0]]\<close>, and \<^verbatim>\<open>deriveCoefficientCommitments\<close> returns the point at
  infinity for every verification share and every index, where the claim has it return
  the share itself (the commitment \<open>G\<cdot>a\<^sub>0\<close> of a constant polynomial).
\<close>

theorem deriveCoefficientCommitments_single:
  "deriveCoefficientCommitments [F] [x] = Inr [infinity]"
  using Q_gt_2
  by (simp add: deriveCoefficientCommitments_def createVandermonde_def rem_js_nonneg
      inverseMatrix_single_one multPointMatrix_def entry_def multiply_zero
      add_infinity_infinity bindE_def)

section \<open>C10: the truthiness test of \<open>increaseThreshold\<close>\<close>

text \<open>
  C10, as amended. For a participant whose \<open>shares\<close> are initialised and whose
  aggregate share is the scalar 0, \<^verbatim>\<open>increaseThreshold\<close> throws the "aggregate share
  has not been initialized" error and leaves the state as it was.
\<close>

theorem increaseThreshold_zero_share:
  "shares p = Some sh \<Longrightarrow> aggregateShare p = Some 0 \<Longrightarrow>
   increaseThreshold p otherShares = (Some AggregateShareNotInitialized, p)"
  by (simp add: increaseThreshold_def falsy_bigint_def)

text \<open>The theorem at participant 1 of 3 holding the shares 5, 6, 7.\<close>

theorem increaseThreshold_zero_share_witness:
  "increaseThreshold ((new_Participant 1 2 3)\<lparr>shares := Some [5, 6, 7], aggregateShare := Some 0\<rparr>) [4, 9]
     = (Some AggregateShareNotInitialized,
        (new_Participant 1 2 3)\<lparr>shares := Some [5, 6, 7], aggregateShare := Some 0\<rparr>)"
  using increaseThreshold_zero_share
    [of "(new_Participant 1 2 3)\<lparr>shares := Some [5, 6, 7], aggregateShare := Some 0\<rparr>" "[5, 6, 7]" "[4, 9]"]
  by simp

text \<open>
  The claim as stated covers every participant whose aggregate share is 0. The test of
  \<open>shares\<close> comes first: a participant that has the aggregate share 0 and no shares
  (one whose share was set by \<^verbatim>\<open>repairShare\<close>) gets the "shares have not been
  initialized" error instead.
\<close>

theorem increaseThreshold_without_shares_counterexample:
  "increaseThreshold ((new_Participant 2 2 3)\<lparr>aggregateShare := Some 0\<rparr>) [4, 9]
     = (Some SharesNotInitialized, (new_Participant 2 2 3)\<lparr>aggregateShare := Some 0\<rparr>)"
  by (simp add: increaseThreshold_def new_Participant_def)

end
